theory Spec2Isabelle
  imports Complex_Main "HOL-Library.AList"
begin

section \<open>JavaScript values and strings\<close>

text \<open>
  A JavaScript string is a sequence of UTF-16 code units. The model covers the strings
  whose code units are below 256 and writes each code unit as one \<^typ>\<open>char\<close>
  (\<open>of_char\<close> reads its number). A cell of a parsed sheet row holds a string, a number,
  a boolean or \<open>null\<close>; a key that is absent reads as \<open>undefined\<close>. Numbers are
  modelled for the safe integers only, those below \<open>2^53\<close> in magnitude, where
  \<open>String\<close> prints every decimal digit (fractions, and the larger numbers that
  \<open>String\<close> rounds or prints with an exponent, are outside the model).
\<close>

datatype jsval = JUndefined | JNull | JStr string | JNum int | JBool bool

text \<open>The exceptions that can leave the handler, named after the call that throws.\<close>

datatype exn = XlsxError | FsError | TypeError | SharpError | PdfError

text \<open>
  \<open>WhiteSpace\<close> and \<open>LineTerminator\<close> of ECMAScript, below code unit 256: TAB, LF, VT, FF,
  CR, SPACE and NO-BREAK SPACE. \<open>String.prototype.trim\<close> and the regular expression
  class \<open>\s\<close> use the same set.
\<close>

definition isWhiteSpace :: "char \<Rightarrow> bool" where
  "isWhiteSpace c =
     (let n = (of_char c :: nat) in (9 \<le> n \<and> n \<le> 13) \<or> n = 32 \<or> n = 160)"

text \<open>\<open>s.trim()\<close>: the string without its leading and trailing white space.\<close>

definition trim :: "string \<Rightarrow> string" where
  "trim s = rev (dropWhile isWhiteSpace (rev (dropWhile isWhiteSpace s)))"

text \<open>
  \<open>s.replace(/\s+/g, r)\<close>: scanning from the left, every match of \<open>\s+\<close> (greedy, so a
  maximal run of white space) is replaced by \<open>r\<close>, and the scan goes on after the match.
\<close>

function replace_ws :: "string \<Rightarrow> string \<Rightarrow> string" where
  "replace_ws r [] = []"
| "replace_ws r (c # cs) =
     (if isWhiteSpace c then r @ replace_ws r (dropWhile isWhiteSpace cs)
      else c # replace_ws r cs)"
  by pat_completeness auto
termination
  by (relation "measure (\<lambda>(r, s). length s)")
     (auto simp: less_Suc_eq_le length_dropWhile_le)

text \<open>
  \<open>s.toLowerCase()\<close> on code units below 256: the letters A to Z and the Latin-1
  capitals U+00C0 to U+00DE (without the multiplication sign U+00D7) move up by 32.
\<close>

definition toLowerChar :: "char \<Rightarrow> char" where
  "toLowerChar c =
     (let n = (of_char c :: nat)
      in if (65 \<le> n \<and> n \<le> 90) \<or> (192 \<le> n \<and> n \<le> 222 \<and> n \<noteq> 215)
         then char_of (n + 32) else c)"

definition toLowerCase :: "string \<Rightarrow> string" where
  "toLowerCase s = map toLowerChar s"

text \<open>Truthiness, and \<open>a || b\<close>: \<open>a\<close> when it is truthy, \<open>b\<close> otherwise.\<close>

fun truthy :: "jsval \<Rightarrow> bool" where
  "truthy JUndefined = False"
| "truthy JNull = False"
| "truthy (JStr s) = (s \<noteq> [])"
| "truthy (JNum n) = (n \<noteq> 0)"
| "truthy (JBool b) = b"

definition js_or :: "jsval \<Rightarrow> jsval \<Rightarrow> jsval" where
  "js_or a b = (if truthy a then a else b)"

text \<open>Decimal digits of a natural number, and \<open>String(v)\<close>.\<close>

definition digit :: "nat \<Rightarrow> char" where
  "digit d = ''0123456789'' ! d"

fun digits :: "nat \<Rightarrow> string" where
  "digits n = (if n < 10 then [digit n] else digits (n div 10) @ [digit (n mod 10)])"

declare digits.simps [simp del]

fun js_String :: "jsval \<Rightarrow> string" where
  "js_String JUndefined = ''undefined''"
| "js_String JNull = ''null''"
| "js_String (JStr s) = s"
| "js_String (JNum n) = (if n < 0 then CHR ''-'' # digits (nat (- n)) else digits (nat n))"
| "js_String (JBool b) = (if b then ''true'' else ''false'')"

text \<open>
  \<open>v.trim()\<close> on a value: a string has the method; a number or a boolean has no
  property \<open>trim\<close>, and calling it (or reading it off \<open>undefined\<close> or \<open>null\<close>) throws
  a TypeError.
\<close>

fun js_trim :: "jsval \<Rightarrow> exn + string" where
  "js_trim (JStr s) = Inr (trim s)"
| "js_trim _ = Inl TypeError"


section \<open>The parsed sheet and the cleaned rows\<close>

text \<open>
  A row of \<open>sheet_to_json\<close> is a plain object: its own keys, each once, in the order in
  which \<open>for (key in row)\<close> visits them, with their values.
\<close>

type_synonym row = "(string \<times> jsval) list"

text \<open>
  The keys of an object are enumerated with the array indices first, in ascending
  order, and the other keys after them in the order of their creation. An array index
  is a key that is the decimal numeral, without a leading zero (only \<open>0\<close> itself
  starts with one), of a number below \<open>2^32 - 1\<close>.
\<close>

definition indexValue :: "string \<Rightarrow> int" where
  "indexValue k = foldl (\<lambda>n c. 10 * n + (of_char c - 48)) 0 k"

definition isArrayIndex :: "string \<Rightarrow> bool" where
  "isArrayIndex k =
     (k \<noteq> [] \<and> list_all (\<lambda>c. 48 \<le> (of_char c :: int) \<and> (of_char c :: int) \<le> 57) k
      \<and> (hd k = CHR ''0'') = (k = ''0'') \<and> indexValue k < 4294967295)"

fun insertIndex :: "string \<Rightarrow> jsval \<Rightarrow> row \<Rightarrow> row" where
  "insertIndex k v [] = [(k, v)]"
| "insertIndex k v ((k', v') # rest) =
     (if isArrayIndex k' \<and> indexValue k' < indexValue k then (k', v') # insertIndex k v rest
      else (k, v) # (k', v') # rest)"

text \<open>
  \<open>obj[k] = v\<close> on a plain object: a key already there keeps its place; a new array
  index goes to its place among the indices, any other new key goes last. The key
  \<open>__proto__\<close> is the accessor of \<open>Object.prototype\<close>: assigning a cell value to it
  adds no key. \<open>obj[k]\<close> reads \<open>undefined\<close> for an absent key (the handler reads the
  six column names only, none of which \<open>Object.prototype\<close> has).
\<close>

definition js_assign :: "row \<Rightarrow> string \<Rightarrow> jsval \<Rightarrow> row" where
  "js_assign obj k v =
     (if k = ''__proto__'' then obj
      else if isArrayIndex k \<and> map_of obj k = None then insertIndex k v obj
      else AList.update k v obj)"

definition js_get :: "row \<Rightarrow> string \<Rightarrow> jsval" where
  "js_get obj k = (case map_of obj k of None \<Rightarrow> JUndefined | Some v \<Rightarrow> v)"

text \<open>
  Lines 54 to 61: \<open>for (let key in row) cleanedRow[key.trim()] = row[key]\<close>, the second
  argument being \<open>cleanedRow\<close> so far.
\<close>

fun cleanRow_loop :: "row \<Rightarrow> row \<Rightarrow> row" where
  "cleanRow_loop [] cleanedRow = cleanedRow"
| "cleanRow_loop ((key, v) # rest) cleanedRow =
     (let cleanedKey = trim key in cleanRow_loop rest (js_assign cleanedRow cleanedKey v))"

definition cleanRow :: "row \<Rightarrow> row" where
  "cleanRow row = cleanRow_loop row []"

definition cleanedData :: "row list \<Rightarrow> row list" where
  "cleanedData data = map cleanRow data"

section \<open>The fields of a row (lines 87 to 92)\<close>

record fields =
  text' :: string
  price :: string
  oldPrice :: string
  discountInfo :: string
  description :: string
  category :: string

definition exn_bind :: "exn + 'a \<Rightarrow> ('a \<Rightarrow> exn + 'b) \<Rightarrow> exn + 'b" where
  "exn_bind m f = (case m of Inl e \<Rightarrow> Inl e | Inr x \<Rightarrow> f x)"

definition text_of :: "row \<Rightarrow> exn + string" where
  "text_of item = js_trim (js_or (js_get item ''Product'') (JStr ''No Product''))"

definition price_of :: "row \<Rightarrow> string" where
  "price_of item =
     replace_ws [] (trim (js_String (js_or (js_get item ''Price'') (JStr ''No Price''))))"

definition oldPrice_of :: "row \<Rightarrow> string" where
  "oldPrice_of item =
     replace_ws [] (trim (js_String (js_or (js_get item ''Old Price'') (JStr []))))"

definition discountInfo_of :: "row \<Rightarrow> exn + string" where
  "discountInfo_of item = js_trim (js_or (js_get item ''Discount Info'') (JStr []))"

definition description_of :: "row \<Rightarrow> exn + string" where
  "description_of item = js_trim (js_or (js_get item ''Description'') (JStr []))"

definition category_of :: "row \<Rightarrow> exn + string" where
  "category_of item = js_trim (js_or (js_get item ''Category'') (JStr []))"

definition extract_fields :: "row \<Rightarrow> exn + fields" where
  "extract_fields item =
     exn_bind (text_of item) (\<lambda>t.
     let p = price_of item; old = oldPrice_of item in
     exn_bind (discountInfo_of item) (\<lambda>di.
     exn_bind (description_of item) (\<lambda>d.
     exn_bind (category_of item) (\<lambda>c.
     Inr \<lparr>text' = t, price = p, oldPrice = old, discountInfo = di,
          description = d, category = c\<rparr>))))"

section \<open>The asset resolver (lines 21 to 30 and 95)\<close>

text \<open>
  A path is kept as the list of the arguments of \<open>path.join\<close> (which normalises the
  joined string, so the list names the file before normalisation).
\<close>

type_synonym path = "string list"

definition productImageSlug :: "string \<Rightarrow> string" where
  "productImageSlug t = replace_ws ''-'' (toLowerCase t)"

definition extensions :: "string list" where
  "extensions = [''.png'', ''.jpg'', ''.jpeg'', ''.webp'']"

fun findProductImage_loop :: "(path \<Rightarrow> bool) \<Rightarrow> string \<Rightarrow> string \<Rightarrow> string list \<Rightarrow> path option" where
  "findProductImage_loop exists dir slug [] = None"
| "findProductImage_loop exists dir slug (ext # exts) =
     (let imagePath = [dir, ''images'', slug @ ext]
      in if exists imagePath then Some imagePath
         else findProductImage_loop exists dir slug exts)"

definition findProductImage :: "(path \<Rightarrow> bool) \<Rightarrow> string \<Rightarrow> string \<Rightarrow> path option" where
  "findProductImage exists dir slug = findProductImage_loop exists dir slug extensions"


section \<open>Images, effects and the outside world\<close>

text \<open>
  The rasters are the work of the sharp library; the model keeps each buffer as the
  pipeline of sharp calls that made it: a decoded file, a resize to fit inside a box
  (\<open>fit: sharp.fit.inside\<close>, which keeps the aspect ratio), the buffer of an SVG text,
  and a new canvas with layers composited onto it at pixel offsets.
\<close>

record canvas =
  width :: nat
  height :: nat
  channels :: nat
  background :: "nat \<times> nat \<times> nat \<times> nat"

datatype image =
    FileImage path
  | ResizedInside image nat nat
  | SvgImage string
  | Composite canvas "layer list"
and layer = Layer (input: image) (left: nat) (top: nat)

record pdf =
  pageSize :: "nat \<times> nat"
  drawn :: image
  drawAt :: "nat \<times> nat"
  drawSize :: "nat \<times> nat"

datatype body = Text string | Json "(string \<times> string) list"

record response =
  status :: nat
  body :: body

type_synonym sheet = "row list"

record workbook =
  SheetNames :: "string list"
  Sheets :: "(string \<times> sheet) list"

datatype log_line = LogRows string "row list" | LogText string | LogImagePath "path option"

text \<open>The calls with an effect outside the handler, in the order in which it makes them.\<close>

datatype event =
    ReadFile path
  | ConsoleLog log_line
  | UnlinkSync path
  | SharpToBuffer image
  | SharpToFile image path
  | ReadFileSync path
  | PdfSave pdf
  | WriteFileSync path pdf
  | Respond response

text \<open>
  What the request and the outside world answer: the uploaded file (if any), what
  \<open>xlsx.readFile\<close> returns or throws, what \<open>sheet_to_json\<close> does with an undefined sheet,
  which files exist, and which library calls throw.
\<close>

record env =
  dirname :: string
  req_file :: "string option"
  xlsx_readFile :: "path \<Rightarrow> exn + workbook"
  sheet_to_json_undefined :: "exn + row list"
  existsSync :: "path \<Rightarrow> bool"
  unlinkSync_throws :: "path \<Rightarrow> bool"
  sharp_throws :: "image \<Rightarrow> bool"
  readFileSync_throws :: "path \<Rightarrow> bool"
  pdf_throws :: "pdf \<Rightarrow> bool"
  writeFileSync_throws :: "path \<Rightarrow> bool"

text \<open>
  A run of (a part of) the handler: the calls made, and the value returned or the
  exception thrown. A call that throws ends the run.
\<close>

type_synonym 'a io = "event list \<times> (exn + 'a)"

definition io_ret :: "'a \<Rightarrow> 'a io" where
  "io_ret x = ([], Inr x)"

definition io_of :: "exn + 'a \<Rightarrow> 'a io" where
  "io_of r = ([], r)"

definition io_bind :: "'a io \<Rightarrow> ('a \<Rightarrow> 'b io) \<Rightarrow> 'b io" where
  "io_bind m f =
     (case m of
        (t, Inl e) \<Rightarrow> (t, Inl e)
      | (t, Inr x) \<Rightarrow> (case f x of (t', r) \<Rightarrow> (t @ t', r)))"

definition io_call :: "event \<Rightarrow> bool \<Rightarrow> exn \<Rightarrow> 'a \<Rightarrow> 'a io" where
  "io_call ev throws e x = ([ev], if throws then Inl e else Inr x)"

definition console_log :: "log_line \<Rightarrow> unit io" where
  "console_log l = ([ConsoleLog l], Inr ())"

definition sharp_toBuffer :: "env \<Rightarrow> image \<Rightarrow> image io" where
  "sharp_toBuffer env img = io_call (SharpToBuffer img) (sharp_throws env img) SharpError img"

section \<open>The card renderer (lines 83 to 173)\<close>

definition productY :: int where "productY = 50"
definition descriptionY :: int where "descriptionY = 90"
definition priceX :: int where "priceX = 600"
definition priceY :: int where "priceY = 100"
definition oldPriceY :: int where "oldPriceY = 140"

definition nl :: string where
  "nl = [CHR 0x0A]"

definition indent :: string where
  "indent = replicate 12 (CHR '' '')"

text \<open>The template literal of lines 136 to 151, the fields interpolated as they are.\<close>

definition svg_of :: "fields \<Rightarrow> string" where
  \<open>svg_of f = concat
     [''<svg width="800" height="200">'', nl,
      indent, ''<!-- Product Name -->'', nl,
      indent, ''<text x="20" y="'', js_String (JNum productY),
        ''" font-family="Arial, sans-serif" font-size="40" fill="black" font-weight="bold">'',
        text' f, ''</text>'', nl,
      indent, nl,
      indent, ''<!-- Description -->'', nl,
      indent, ''<text x="20" y="'', js_String (JNum descriptionY),
        ''" font-family="Arial, sans-serif" font-size="20" fill="black">'',
        description f, ''</text>'', nl,
      nl,
      indent, ''<!-- Discount Info (positioned right) -->'', nl,
      indent, ''<text x="600" y="50" font-family="Arial, sans-serif" font-size="30" fill="red">'',
        discountInfo f, ''</text>'', nl,
      nl,
      indent, ''<!-- Current Price (right next to discount info) -->'', nl,
      indent, ''<text x="'', js_String (JNum priceX), ''" y="'', js_String (JNum priceY),
        ''" font-family="Arial, sans-serif" font-size="40" fill="black" font-weight="bold">'',
        price f, ''</text>'', nl,
      nl,
      indent, ''<!-- Old Price -->'', nl,
      indent, ''<text x="'', js_String (JNum priceX), ''" y="'', js_String (JNum oldPriceY),
        ''" font-family="Arial, sans-serif" font-size="20" fill="gray" text-decoration="line-through">'',
        oldPrice f, ''</text>'', nl,
      replicate 8 (CHR '' ''), ''</svg>'']\<close>

definition cardCanvas :: canvas where
  "cardCanvas = \<lparr>width = 800, height = 200, channels = 4, background = (255, 255, 255, 1)\<rparr>"

text \<open>One turn of the loop: the card of one cleaned row, given the shared background.\<close>

definition renderCard :: "env \<Rightarrow> image option \<Rightarrow> row \<Rightarrow> image io" where
  "renderCard env backgroundImage item =
     io_bind (io_of (extract_fields item)) (\<lambda>f.
     let slug = productImageSlug (text' f);
         productImagePath = findProductImage (existsSync env) (dirname env) slug
     in
     io_bind (console_log (LogText (''Looking for image: '' @ slug))) (\<lambda>_.
     io_bind (console_log (LogImagePath productImagePath)) (\<lambda>_.
     io_bind (console_log (LogText
        ((if productImagePath \<noteq> None then ''Image found for product: ''
          else ''No image found for product: '') @ text' f))) (\<lambda>_.
     let compositeImages =
           (case backgroundImage of Some b \<Rightarrow> [Layer b 0 0] | None \<Rightarrow> [])
     in
     io_bind (case productImagePath of
                Some p \<Rightarrow> io_bind (sharp_toBuffer env (FileImage p)) (\<lambda>b. io_ret (Some b))
              | None \<Rightarrow> io_ret None) (\<lambda>productImage.
     io_bind (case productImage of
                Some b \<Rightarrow>
                  io_bind (sharp_toBuffer env (ResizedInside b 150 150)) (\<lambda>r.
                  io_ret (compositeImages @ [Layer r 400 20]))
              | None \<Rightarrow> io_ret compositeImages) (\<lambda>compositeImages.
     let svg = svg_of f;
         compositeImages = compositeImages @ [Layer (SvgImage svg) 0 0]
     in sharp_toBuffer env (Composite cardCanvas compositeImages)))))))"

function renderLoop :: "env \<Rightarrow> image option \<Rightarrow> row list \<Rightarrow> nat \<Rightarrow> image list \<Rightarrow> image list io" where
  "renderLoop env backgroundImage rows i imageBuffers =
     (if i < length rows
      then io_bind (renderCard env backgroundImage (rows ! i)) (\<lambda>imageBuffer.
           renderLoop env backgroundImage rows (i + 1) (imageBuffers @ [imageBuffer]))
      else io_ret imageBuffers)"
  by pat_completeness auto
termination
  by (relation "measure (\<lambda>(env, bg, rows, i, bufs). length rows - i)") auto

declare renderLoop.simps [simp del]

section \<open>The grid compositor (lines 176 to 200)\<close>

definition columns :: nat where "columns = 3"
definition boxWidth :: nat where "boxWidth = 800"
definition boxHeight :: nat where "boxHeight = 200"

text \<open>
  \<open>Math.ceil\<close> and \<open>Math.floor\<close> of a quotient of two lengths, taken on the exact
  quotient (the rounding of the floating-point division is outside the model).
\<close>

definition Math_ceil :: "rat \<Rightarrow> int" where
  "Math_ceil x = \<lceil>x\<rceil>"

definition Math_floor :: "rat \<Rightarrow> int" where
  "Math_floor x = \<lfloor>x\<rfloor>"

definition totalWidth :: nat where
  "totalWidth = columns * boxWidth"

definition totalHeight :: "nat \<Rightarrow> nat" where
  "totalHeight n = nat (Math_ceil (of_nat n / of_nat columns)) * boxHeight"

definition gridLayers :: "image list \<Rightarrow> layer list" where
  "gridLayers imageBuffers =
     map (\<lambda>(index, buffer).
            Layer buffer
              ((index mod columns) * boxWidth)
              (nat (Math_floor (of_nat index / of_nat columns)) * boxHeight))
         (List.enumerate 0 imageBuffers)"

definition stitched :: "nat \<Rightarrow> image list \<Rightarrow> image" where
  "stitched n imageBuffers =
     Composite \<lparr>width = totalWidth, height = totalHeight n, channels = 4,
                background = (255, 255, 255, 1)\<rparr>
               (gridLayers imageBuffers)"


section \<open>The upload handler (lines 33 to 225)\<close>

text \<open>
  Lines 41 and 42: the first sheet name (\<open>undefined\<close> when there is none, which as a key
  reads \<open>"undefined"\<close>) and the sheet under that name. Line 45: a sheet is kept as the
  rows \<open>sheet_to_json\<close> reads off it; what the call does with an undefined sheet is the
  library's answer.
\<close>

definition first_sheet :: "workbook \<Rightarrow> sheet option" where
  "first_sheet workbook =
     (let sheetName = (case SheetNames workbook of [] \<Rightarrow> None | n # _ \<Rightarrow> Some n)
      in map_of (Sheets workbook) (case sheetName of None \<Rightarrow> ''undefined'' | Some n \<Rightarrow> n))"

definition sheet_to_json :: "env \<Rightarrow> sheet option \<Rightarrow> exn + row list" where
  "sheet_to_json env sheet =
     (case sheet of None \<Rightarrow> sheet_to_json_undefined env | Some rows \<Rightarrow> Inr rows)"

text \<open>Lines 39 to 51: read the workbook, convert the first sheet, log, delete the upload.\<close>

definition load :: "env \<Rightarrow> string \<Rightarrow> row list io" where
  "load env filename =
     (let filePath = [dirname env, ''uploads'', filename] in
      io_bind ([ReadFile filePath], xlsx_readFile env filePath) (\<lambda>workbook.
      io_bind (io_of (sheet_to_json env (first_sheet workbook))) (\<lambda>data.
      io_bind (console_log (LogRows ''Parsed Data:'' data)) (\<lambda>_.
      io_bind (io_call (UnlinkSync filePath) (unlinkSync_throws env filePath) FsError ()) (\<lambda>_.
      io_ret data)))))"

text \<open>Lines 70 and 71: the shared background, loaded when the file exists.\<close>

definition loadBackground :: "env \<Rightarrow> image option io" where
  "loadBackground env =
     (let backgroundImagePath = [dirname env, ''images'', ''background.png''] in
      if existsSync env backgroundImagePath
      then io_bind (sharp_toBuffer env (FileImage backgroundImagePath)) (\<lambda>b. io_ret (Some b))
      else io_ret None)"

text \<open>
  Lines 183 to 224: the grid written as PNG, read back, put on the one page of a PDF of
  the same size, the PDF written, and the JSON answer.
\<close>

definition export :: "env \<Rightarrow> nat \<Rightarrow> image list \<Rightarrow> unit io" where
  "export env n imageBuffers =
     (let stitchedImagePath = [dirname env, ''public'', ''price-sheet.png''];
          grid = stitched n imageBuffers
      in
      io_bind (io_call (SharpToFile grid stitchedImagePath) (sharp_throws env grid) SharpError ()) (\<lambda>_.
      io_bind (io_call (ReadFileSync stitchedImagePath)
                 (readFileSync_throws env stitchedImagePath) FsError grid) (\<lambda>pngImage.
      let doc = \<lparr>pageSize = (totalWidth, totalHeight n), drawn = pngImage, drawAt = (0, 0),
                 drawSize = (totalWidth, totalHeight n)\<rparr>;
          pdfPath = [dirname env, ''public'', ''price-sheet.pdf'']
      in
      io_bind (io_call (PdfSave doc) (pdf_throws env doc) PdfError doc) (\<lambda>pdfBytes.
      io_bind (io_call (WriteFileSync pdfPath pdfBytes)
                 (writeFileSync_throws env pdfPath) FsError ()) (\<lambda>_.
      ([Respond \<lparr>status = 200,
                 body = Json [(''message'', ''Price sheet generated successfully!''),
                              (''imageUrl'', ''/price-sheet.png''),
                              (''pdfUrl'', ''/price-sheet.pdf'')]\<rparr>], Inr ()))))))"

definition upload :: "env \<Rightarrow> unit io" where
  "upload env =
     (case req_file env of
        None \<Rightarrow> ([Respond \<lparr>status = 400, body = Text ''No file uploaded.''\<rparr>], Inr ())
      | Some filename \<Rightarrow>
          io_bind (load env filename) (\<lambda>data.
          let cleaned = cleanedData data in
          io_bind (console_log (LogRows ''Cleaned Data:'' cleaned)) (\<lambda>_.
          io_bind (loadBackground env) (\<lambda>backgroundImage.
          io_bind (renderLoop env backgroundImage cleaned 0 []) (\<lambda>imageBuffers.
          export env (length cleaned) imageBuffers)))))"


section \<open>The asset resolver as the specification words it\<close>

text \<open>
  The maximal runs of a string: neighbouring characters are in one run when both are
  white space or both are not. "Replace every run of whitespace with a single hyphen"
  then maps each white-space run to one hyphen and keeps the other runs.
\<close>

fun ws_runs :: "string \<Rightarrow> string list" where
  "ws_runs [] = []"
| "ws_runs (c # cs) =
     (case ws_runs cs of
        [] \<Rightarrow> [[c]]
      | b # bs \<Rightarrow> if isWhiteSpace (hd b) = isWhiteSpace c then (c # b) # bs else [c] # b # bs)"

definition spec_replace_runs :: "string \<Rightarrow> string \<Rightarrow> string" where
  "spec_replace_runs r s = concat (map (\<lambda>b. if isWhiteSpace (hd b) then r else b) (ws_runs s))"

definition spec_slug :: "string \<Rightarrow> string" where
  "spec_slug name = spec_replace_runs ''-'' (toLowerCase (trim name))"

text \<open>
  "Probe a fixed ordered list of extensions against \<open><image-directory>/<slug><ext>\<close>;
  return the first existing path", not found being \<open>None\<close>.
\<close>

definition spec_candidates :: "string \<Rightarrow> string \<Rightarrow> path list" where
  "spec_candidates dir slug =
     map (\<lambda>ext. [dir, ''images'', slug @ ext]) [''.png'', ''.jpg'', ''.jpeg'', ''.webp'']"

definition spec_resolve :: "(path \<Rightarrow> bool) \<Rightarrow> string \<Rightarrow> string \<Rightarrow> path option" where
  "spec_resolve exists dir slug = List.find exists (spec_candidates dir slug)"

section \<open>The card as the specification words it\<close>

text \<open>
  "Flatten background + product image + text layer onto a blank white opaque canvas of
  the fixed card size": the background (if there is one) at (0,0), the product image
  (if one was resolved) fitted inside 150 by 150 at (400,20), the text layer last.
\<close>

definition spec_card :: "image option \<Rightarrow> path option \<Rightarrow> fields \<Rightarrow> image" where
  "spec_card backgroundImage productImagePath f =
     Composite \<lparr>width = 800, height = 200, channels = 4, background = (255, 255, 255, 1)\<rparr>
       ((case backgroundImage of Some b \<Rightarrow> [Layer b 0 0] | None \<Rightarrow> [])
        @ (case productImagePath of
             Some p \<Rightarrow> [Layer (ResizedInside (FileImage p) 150 150) 400 20]
           | None \<Rightarrow> [])
        @ [Layer (SvgImage (svg_of f)) 0 0])"

text \<open>
  The text layer holds "five fixed-position text elements: product name (bold, size
  40, black, (20,50)), description (size 20, black, (20,90)), discount info (size 30,
  red, (600,50)), price (bold, size 40, black, (600,100)), old price (size 20, gray,
  strikethrough, (600,140))". One such element, in the font of the template: its
  position, size, colour, further style and content.
\<close>

definition svg_text :: "string \<Rightarrow> string \<Rightarrow> string \<Rightarrow> string \<Rightarrow> string \<Rightarrow> string \<Rightarrow> string" where
  \<open>svg_text x y fontSize fill style content =
     ''<text x="'' @ x @ ''" y="'' @ y @ ''" font-family="Arial, sans-serif" font-size="'' @ fontSize
     @ ''" fill="'' @ fill @ ''"'' @ style @ ''>'' @ content @ ''</text>''\<close>

section \<open>Sample requests\<close>

text \<open>
  A sheet of two rows and a world around it: the upload \<open>f1\<close>, a background and a
  photo for the first product only, and no call that throws. The variants change one
  answer of the world each: no file in the request, a file \<open>xlsx.readFile\<close> cannot read,
  a workbook without sheets (with the answers of the libraries in use: \<open>sheet_to_json\<close>
  returns no rows for an undefined sheet, sharp refuses a canvas of height 0), a sheet
  without rows (sharp refusing height 0 again), and an upload that cannot be deleted.
\<close>

definition sample_rows :: "row list" where
  "sample_rows =
     [[('' Product '', JStr ''  Fresh   Milk ''), (''Price'', JStr ''$ 9 . 99'')],
      [(''Product'', JStr ''Eggs''), (''Description'', JStr '' a  dozen '')]]"

definition sample_env :: env where
  "sample_env =
     \<lparr>dirname = ''/app'',
      req_file = Some ''f1'',
      xlsx_readFile = (\<lambda>p. Inr \<lparr>SheetNames = [''Sheet1''], Sheets = [(''Sheet1'', sample_rows)]\<rparr>),
      sheet_to_json_undefined = Inr [],
      existsSync = (\<lambda>p. p = [''/app'', ''images'', ''background.png'']
                        \<or> p = [''/app'', ''images'', ''fresh-milk.jpg'']),
      unlinkSync_throws = (\<lambda>p. False),
      sharp_throws = (\<lambda>img. False),
      readFileSync_throws = (\<lambda>p. False),
      pdf_throws = (\<lambda>d. False),
      writeFileSync_throws = (\<lambda>p. False)\<rparr>"

definition milk_row :: row where
  "milk_row = [(''Product'', JStr ''  Fresh   Milk ''), (''Price'', JStr ''$ 9 . 99'')]"

definition eggs_row :: row where
  "eggs_row = [(''Product'', JStr ''Eggs''), (''Description'', JStr '' a  dozen '')]"

definition milk_fields :: fields where
  "milk_fields = \<lparr>text' = ''Fresh   Milk'', price = ''$9.99'', oldPrice = [], discountInfo = [],
                   description = [], category = []\<rparr>"

definition eggs_fields :: fields where
  "eggs_fields = \<lparr>text' = ''Eggs'', price = ''NoPrice'', oldPrice = [], discountInfo = [],
                   description = ''a  dozen'', category = []\<rparr>"

definition sample_background :: image where
  "sample_background = FileImage [''/app'', ''images'', ''background.png'']"

definition milk_card :: image where
  "milk_card = spec_card (Some sample_background)
                 (Some [''/app'', ''images'', ''fresh-milk.jpg'']) milk_fields"

definition eggs_card :: image where
  "eggs_card = spec_card (Some sample_background) None eggs_fields"

definition no_file_env :: env where
  "no_file_env = sample_env\<lparr>req_file := None\<rparr>"

definition unreadable_env :: env where
  "unreadable_env = sample_env\<lparr>xlsx_readFile := (\<lambda>p. Inl XlsxError)\<rparr>"

definition no_sheets_env :: env where
  "no_sheets_env =
     sample_env\<lparr>xlsx_readFile := (\<lambda>p. Inr \<lparr>SheetNames = [], Sheets = []\<rparr>),
                sharp_throws := (\<lambda>img. case img of Composite c ls \<Rightarrow> height c = 0 | _ \<Rightarrow> False)\<rparr>"

definition empty_sheet_env :: env where
  "empty_sheet_env =
     sample_env\<lparr>xlsx_readFile := (\<lambda>p. Inr \<lparr>SheetNames = [''Sheet1''], Sheets = [(''Sheet1'', [])]\<rparr>),
                sharp_throws := (\<lambda>img. case img of Composite c ls \<Rightarrow> height c = 0 | _ \<Rightarrow> False)\<rparr>"

definition undeletable_env :: env where
  "undeletable_env = sample_env\<lparr>unlinkSync_throws := (\<lambda>p. True)\<rparr>"

section \<open>The grid compositor: arithmetic\<close>

lemma Math_floor_div: "nat (Math_floor (of_nat i / of_nat c)) = i div c"
  by (simp add: Math_floor_def floor_divide_of_nat_eq)

lemma Math_ceil_div: "nat (Math_ceil (of_nat n / of_nat columns)) = (n + 2) div 3"
proof -
  have "(of_nat n / of_nat columns :: rat) = of_int (int n) / of_int 3"
    by (simp add: columns_def)
  then have "Math_ceil (of_nat n / of_nat columns) = - (- int n div 3)"
    unfolding Math_ceil_def by (simp only: ceiling_divide_eq_div)
  also have "\<dots> = int ((n + 2) div 3)" by presburger
  finally show ?thesis by simp
qed

lemma ceiling_thirds: "nat \<lceil>(of_nat n :: rat) / 3\<rceil> = (n + 2) div 3"
  using Math_ceil_div [of n] by (simp add: Math_ceil_def columns_def)

lemma gridLayers_length: "length (gridLayers bufs) = length bufs"
  by (simp add: gridLayers_def)

lemma gridLayers_nth:
  "i < length bufs \<Longrightarrow>
   gridLayers bufs ! i = Layer (bufs ! i) ((i mod 3) * 800) ((i div 3) * 200)"
  by (simp add: gridLayers_def nth_enumerate_eq Math_floor_div boxWidth_def boxHeight_def)
     (simp add: columns_def)

lemma totalHeight_eq: "totalHeight n = (n + 2) div 3 * 200"
  by (simp add: totalHeight_def Math_ceil_div boxHeight_def)

section \<open>White space: scanning, trimming, lower case\<close>

lemma ws_scan_induct [case_names Nil Space Other]:
  assumes "P []"
    and "\<And>c cs. isWhiteSpace c \<Longrightarrow> P (dropWhile isWhiteSpace cs) \<Longrightarrow> P (c # cs)"
    and "\<And>c cs. \<not> isWhiteSpace c \<Longrightarrow> P cs \<Longrightarrow> P (c # cs)"
  shows "P s"
proof (induction s rule: length_induct)
  case (1 s)
  show ?case
  proof (cases s)
    case Nil
    with assms(1) show ?thesis by simp
  next
    case (Cons c cs)
    have "length (dropWhile isWhiteSpace cs) < length s"
      using Cons by (simp add: less_Suc_eq_le length_dropWhile_le)
    with 1 have a: "P (dropWhile isWhiteSpace cs)" by blast
    from 1 Cons have b: "P cs" by simp
    show ?thesis
      using Cons a b assms(2) [of c cs] assms(3) [of c cs] by blast
  qed
qed

lemma replace_ws_no_space:
  assumes r: "\<forall>c\<in>set r. \<not> isWhiteSpace c"
  shows "\<forall>c\<in>set (replace_ws r s). \<not> isWhiteSpace c"
proof (induction s rule: ws_scan_induct)
  case Nil
  show ?case by simp
next
  case (Space c cs)
  have "set (replace_ws r (c # cs)) = set r \<union> set (replace_ws r (dropWhile isWhiteSpace cs))"
    using Space(1) by simp
  then show ?case using Space(2) r by (metis Un_iff)
next
  case (Other c cs)
  have "set (replace_ws r (c # cs)) = insert c (set (replace_ws r cs))"
    using Other(1) by simp
  then show ?case using Other by (metis insert_iff)
qed

lemma of_char_lt_256: "(of_char c :: nat) < 256"
proof -
  have "(of_char c :: nat) mod 256 < 256" by simp
  then show ?thesis by (simp only: of_char_mod_256)
qed

lemma isWhiteSpace_toLowerChar: "isWhiteSpace (toLowerChar c) = isWhiteSpace c"
proof -
  define n where "n = (of_char c :: nat)"
  have lt: "n < 256" unfolding n_def by (rule of_char_lt_256)
  show ?thesis
  proof (cases "(65 \<le> n \<and> n \<le> 90) \<or> (192 \<le> n \<and> n \<le> 222 \<and> n \<noteq> 215)")
    case True
    then have "toLowerChar c = char_of (n + 32)"
      by (simp add: toLowerChar_def n_def [symmetric])
    moreover from True have "n + 32 < 256" by arith
    then have "(of_char (char_of (n + 32)) :: nat) = n + 32"
      by (simp add: of_char_of)
    ultimately show ?thesis
      using True by (simp add: isWhiteSpace_def n_def [symmetric]) arith
  next
    case False
    then have "toLowerChar c = c"
      unfolding toLowerChar_def n_def Let_def by (rule if_not_P)
    then show ?thesis by simp
  qed
qed





lemma rev_take_drop:
  "xs = rev (dropWhile P (rev xs)) @ rev (takeWhile P (rev xs))"
  by (metis rev_append rev_rev_ident takeWhile_dropWhile_id)


lemma trim_ends:
  assumes "trim s \<noteq> []"
  shows "\<not> isWhiteSpace (hd (trim s)) \<and> \<not> isWhiteSpace (last (trim s))"
proof -
  define d where "d = dropWhile isWhiteSpace s"
  define e where "e = dropWhile isWhiteSpace (rev d)"
  have t: "trim s = rev e" by (simp add: trim_def e_def d_def)
  with assms have e: "e \<noteq> []" by simp
  then have "\<not> isWhiteSpace (hd e)" unfolding e_def by (rule hd_dropWhile)
  then have l: "\<not> isWhiteSpace (last (trim s))" using e t by (simp add: last_rev)
  have dd: "d = rev e @ rev (takeWhile isWhiteSpace (rev d))"
    unfolding e_def by (rule rev_take_drop)
  with e have "d \<noteq> []" by auto
  then have "\<not> isWhiteSpace (hd d)" unfolding d_def by (rule hd_dropWhile)
  moreover have "hd d = hd (rev e)" using dd e by (metis hd_append2 rev_is_Nil_conv)
  ultimately have "\<not> isWhiteSpace (hd (trim s))" using t by simp
  with l show ?thesis by simp
qed

lemma trim_idem: "trim (trim s) = trim s"
proof (cases "trim s = []")
  case True
  have "trim [] = []" by (simp add: trim_def)
  with True show ?thesis by simp
next
  case False
  define t where "t = trim s"
  from False trim_ends [of s] have h: "\<not> isWhiteSpace (hd t)" and l: "\<not> isWhiteSpace (last t)"
    and ne: "t \<noteq> []" by (simp_all add: t_def)
  from h have a: "dropWhile isWhiteSpace t = t" by (simp add: dropWhile_eq_self_iff)
  from l ne have "\<not> isWhiteSpace (hd (rev t))" by (simp add: hd_rev)
  then have b: "dropWhile isWhiteSpace (rev t) = rev t" by (simp add: dropWhile_eq_self_iff)
  have "trim t = t" unfolding trim_def by (simp only: a b rev_rev_ident)
  then show ?thesis by (simp add: t_def)
qed

section \<open>The asset resolver: slug and probing\<close>

lemma ws_runs_Cons_hd: "ws_runs (c # cs) \<noteq> [] \<and> hd (hd (ws_runs (c # cs))) = c \<and> hd (ws_runs (c # cs)) \<noteq> []"
  by (simp split: list.split)

lemma spec_replace_runs_Nil: "spec_replace_runs r [] = []"
  by (simp add: spec_replace_runs_def)

lemma spec_replace_runs_other:
  "\<not> isWhiteSpace c \<Longrightarrow> spec_replace_runs r (c # cs) = c # spec_replace_runs r cs"
proof (cases cs)
  case Nil
  assume "\<not> isWhiteSpace c"
  with Nil show ?thesis by (simp add: spec_replace_runs_def)
next
  case (Cons d ds)
  assume c: "\<not> isWhiteSpace c"
  obtain b bs where bs: "ws_runs cs = b # bs" and hd: "hd b = d"
    using ws_runs_Cons_hd [of d ds] Cons by (cases "ws_runs cs") auto
  show ?thesis
    using c bs hd by (simp add: spec_replace_runs_def)
qed

lemma spec_replace_runs_space:
  "isWhiteSpace c \<Longrightarrow> spec_replace_runs r (c # cs) = r @ spec_replace_runs r (dropWhile isWhiteSpace cs)"
proof (induction cs arbitrary: c)
  case Nil
  then show ?case by (simp add: spec_replace_runs_def)
next
  case (Cons d ds)
  obtain b bs where bs: "ws_runs (d # ds) = b # bs" and hd: "hd b = d"
    using ws_runs_Cons_hd [of d ds] by (cases "ws_runs (d # ds)") auto
  show ?case
  proof (cases "isWhiteSpace d")
    case True
    have "spec_replace_runs r (d # ds) = r @ concat (map (\<lambda>b. if isWhiteSpace (hd b) then r else b) bs)"
      using bs hd True by (simp add: spec_replace_runs_def)
    moreover have "spec_replace_runs r (d # ds) = r @ spec_replace_runs r (dropWhile isWhiteSpace ds)"
      using Cons.IH [OF True] .
    ultimately have eq: "concat (map (\<lambda>b. if isWhiteSpace (hd b) then r else b) bs)
        = spec_replace_runs r (dropWhile isWhiteSpace ds)" by simp
    have "spec_replace_runs r (c # d # ds) = r @ concat (map (\<lambda>b. if isWhiteSpace (hd b) then r else b) bs)"
      using bs hd True Cons.prems by (simp add: spec_replace_runs_def)
    with eq True show ?thesis by simp
  next
    case False
    have "spec_replace_runs r (c # d # ds) = r @ spec_replace_runs r (d # ds)"
      using bs hd False Cons.prems by (simp add: spec_replace_runs_def)
    with False show ?thesis by simp
  qed
qed

lemma replace_ws_refines: "replace_ws r s = spec_replace_runs r s"
  by (induction s rule: ws_scan_induct)
     (simp_all add: spec_replace_runs_Nil spec_replace_runs_other spec_replace_runs_space)

lemma findProductImage_loop_find:
  "findProductImage_loop exists dir slug exts = List.find exists (map (\<lambda>ext. [dir, ''images'', slug @ ext]) exts)"
  by (induction exts) simp_all

lemma findProductImage_refines: "findProductImage exists dir slug = spec_resolve exists dir slug"
  by (simp add: findProductImage_def spec_resolve_def spec_candidates_def extensions_def
      findProductImage_loop_find)

text \<open>
  Claim C2. When the product name of a row (the Product cell, or the placeholder) is the
  string \<open>name\<close>, the field is \<open>name\<close> trimmed, and the slug of that field is what the
  specification words: \<open>name\<close> trimmed, then in lower case, then every run of white
  space replaced by one hyphen; the slug holds no white space. The resolver returns
  the first of \<open>[dir, images, slug + ext]\<close>, for \<open>ext\<close> in the order .png, .jpg, .jpeg,
  .webp, that exists; it returns \<open>None\<close> exactly when none of the four exists, and has
  no error result.
\<close>

theorem asset_resolver:
  "(js_or (js_get item ''Product'') (JStr ''No Product'') = JStr name \<longrightarrow>
      text_of item = Inr (trim name)
      \<and> productImageSlug (trim name) = spec_slug name
      \<and> (\<forall>c\<in>set (productImageSlug (trim name)). \<not> isWhiteSpace c))
   \<and> findProductImage exists dir slug = spec_resolve exists dir slug
   \<and> (findProductImage exists dir slug = None \<longleftrightarrow>
        (\<forall>ext\<in>set [''.png'', ''.jpg'', ''.jpeg'', ''.webp'']. \<not> exists [dir, ''images'', slug @ ext]))
   \<and> (\<forall>p. findProductImage exists dir slug = Some p \<longrightarrow>
        exists p \<and> (\<exists>ext\<in>set [''.png'', ''.jpg'', ''.jpeg'', ''.webp'']. p = [dir, ''images'', slug @ ext]))"
proof (intro conjI impI allI)
  assume n: "js_or (js_get item ''Product'') (JStr ''No Product'') = JStr name"
  then show "text_of item = Inr (trim name)" by (simp add: text_of_def)
  show "productImageSlug (trim name) = spec_slug name"
    by (simp add: productImageSlug_def spec_slug_def replace_ws_refines)
  have "\<forall>c\<in>set ''-''. \<not> isWhiteSpace c" by (simp add: isWhiteSpace_def)
  then show "\<forall>c\<in>set (productImageSlug (trim name)). \<not> isWhiteSpace c"
    unfolding productImageSlug_def by (rule replace_ws_no_space)
next
  show r: "findProductImage exists dir slug = spec_resolve exists dir slug"
    by (rule findProductImage_refines)
  show "findProductImage exists dir slug = None \<longleftrightarrow>
        (\<forall>ext\<in>set [''.png'', ''.jpg'', ''.jpeg'', ''.webp'']. \<not> exists [dir, ''images'', slug @ ext])"
    by (simp add: findProductImage_def extensions_def Let_def)
  fix p assume "findProductImage exists dir slug = Some p"
  then have "List.find exists (spec_candidates dir slug) = Some p"
    by (simp add: r spec_resolve_def)
  then have e: "exists p" and m: "p \<in> set (spec_candidates dir slug)"
    by (auto simp: find_Some_iff)
  from e show "exists p" .
  from m show "\<exists>ext\<in>set [''.png'', ''.jpg'', ''.jpeg'', ''.webp'']. p = [dir, ''images'', slug @ ext]"
    by (auto simp: spec_candidates_def)
qed

theorem asset_resolver_witness:
  "js_or (js_get [(''Product'', JStr ''  Fresh   Milk '')] ''Product'') (JStr ''No Product'')
     = JStr ''  Fresh   Milk ''
   \<and> text_of [(''Product'', JStr ''  Fresh   Milk '')] = Inr ''Fresh   Milk''
   \<and> productImageSlug ''Fresh   Milk'' = ''fresh-milk''
   \<and> findProductImage (\<lambda>p. p = [''/app'', ''images'', ''fresh-milk.jpg'']) ''/app'' ''fresh-milk''
       = Some [''/app'', ''images'', ''fresh-milk.jpg'']"
proof -
  let ?item = "[(''Product'', JStr ''  Fresh   Milk '')]"
  let ?ex = "\<lambda>p. p = [''/app'', ''images'', ''fresh-milk.jpg'']"
  have h: "js_or (js_get ?item ''Product'') (JStr ''No Product'') = JStr ''  Fresh   Milk ''"
    by (simp add: js_or_def js_get_def)
  have t: "trim ''  Fresh   Milk '' = ''Fresh   Milk''" by code_simp
  have s: "spec_slug ''  Fresh   Milk '' = ''fresh-milk''" by code_simp
  have f: "spec_resolve ?ex ''/app'' ''fresh-milk'' = Some [''/app'', ''images'', ''fresh-milk.jpg'']"
    by (simp add: spec_resolve_def spec_candidates_def)
  from asset_resolver [of ?item "''  Fresh   Milk ''" ?ex "''/app''" "''fresh-milk''"] h
  have "text_of ?item = Inr (trim ''  Fresh   Milk '')"
    and "productImageSlug (trim ''  Fresh   Milk '') = spec_slug ''  Fresh   Milk ''"
    and "findProductImage ?ex ''/app'' ''fresh-milk'' = spec_resolve ?ex ''/app'' ''fresh-milk''"
    by blast+
  with h t s f show ?thesis by (simp only: simp_thms)
qed

section \<open>The fields of a row: white space and placeholders\<close>



text \<open>
  A falsy Product cell (absent, empty, zero, false, null) gives the name "No Product".
  A falsy Price cell gives the placeholder with its space removed by the replace that
  follows it.
\<close>

lemma falsy_product_placeholder:
  "\<not> truthy (js_get item ''Product'') \<Longrightarrow> text_of item = Inr ''No Product''"
proof -
  assume "\<not> truthy (js_get item ''Product'')"
  then have "text_of item = Inr (trim ''No Product'')" by (simp add: text_of_def js_or_def)
  moreover have "trim ''No Product'' = ''No Product''" by code_simp
  ultimately show ?thesis by simp
qed

lemma falsy_price_placeholder:
  "\<not> truthy (js_get item ''Price'') \<Longrightarrow> price_of item = ''NoPrice''"
proof -
  assume "\<not> truthy (js_get item ''Price'')"
  then have "price_of item = replace_ws [] (trim ''No Price'')" by (simp add: price_of_def js_or_def)
  moreover have "replace_ws [] (trim ''No Price'') = ''NoPrice''" by code_simp
  ultimately show ?thesis by simp
qed

text \<open>
  Claim C9, at rows without a Price cell, with the number 0 and with the empty string
  as Price: the price the card shows is \<open>NoPrice\<close>, without the space of the placeholder
  \<open>No Price\<close> of line 88.
\<close>

theorem missing_price_placeholder:
  "extract_fields [(''Product'', JStr ''Milk'')] =
     Inr \<lparr>text' = ''Milk'', price = ''NoPrice'', oldPrice = [], discountInfo = [],
          description = [], category = []\<rparr>
   \<and> price_of [(''Product'', JStr ''Milk''), (''Price'', JNum 0)] = ''NoPrice''
   \<and> price_of [(''Product'', JStr ''Milk''), (''Price'', JStr [])] = ''NoPrice''"
  by code_simp

section \<open>The cleaned rows\<close>

lemma map_of_insertIndex:
  "map_of obj k = None \<Longrightarrow> map_of (insertIndex k v obj) = (map_of obj)(k \<mapsto> v)"
proof (induction obj)
  case Nil
  show ?case by simp
next
  case (Cons e obj)
  obtain k' v' where e: "e = (k', v')" by (cases e)
  from Cons.prems e have ne: "k' \<noteq> k" and rest: "map_of obj k = None"
    by (simp_all split: if_splits)
  show ?case
  proof (cases "isArrayIndex k' \<and> indexValue k' < indexValue k")
    case True
    then have "map_of (insertIndex k v (e # obj)) = (map_of (insertIndex k v obj))(k' \<mapsto> v')"
      unfolding e by simp
    also have "\<dots> = ((map_of obj)(k \<mapsto> v))(k' \<mapsto> v')"
      by (simp only: Cons.IH [OF rest])
    also have "\<dots> = ((map_of obj)(k' \<mapsto> v'))(k \<mapsto> v)"
      using ne by (simp add: fun_upd_twist)
    also have "\<dots> = (map_of (e # obj))(k \<mapsto> v)"
      unfolding e by simp
    finally show ?thesis .
  next
    case False
    then have eq: "insertIndex k v ((k', v') # obj) = (k, v) # (k', v') # obj"
      by (simp only: insertIndex.simps if_False)
    show ?thesis unfolding e eq by (rule ext) simp
  qed
qed

lemma map_of_js_assign:
  "map_of (js_assign obj k v) = (if k = ''__proto__'' then map_of obj else (map_of obj)(k \<mapsto> v))"
  by (simp add: js_assign_def update_conv' map_of_insertIndex)

lemma cleanRow_loop_lookup:
  "map_of (cleanRow_loop row acc) k =
     (if k = ''__proto__'' then map_of acc k
      else (case map_of (rev (map (\<lambda>(key, v). (trim key, v)) row)) k of
              Some v \<Rightarrow> Some v | None \<Rightarrow> map_of acc k))"
proof (induction row arbitrary: acc)
  case Nil
  show ?case by simp
next
  case (Cons e row)
  obtain key v where e: "e = (key, v)" by (cases e)
  show ?case
    unfolding e
    by (simp add: Cons.IH map_of_js_assign map_add_def split: option.split)
qed

lemma cleanRow_lookup:
  "map_of (cleanRow row) k =
     (if k = ''__proto__'' then None else map_of (rev (map (\<lambda>(key, v). (trim key, v)) row)) k)"
  by (simp add: cleanRow_def cleanRow_loop_lookup split: option.split)

lemma cleanRow_loop_trimmed:
  "cleanRow_loop (map (\<lambda>(key, v). (trim key, v)) row) acc = cleanRow_loop row acc"
  by (induction row arbitrary: acc) (auto simp: trim_idem)


text \<open>
  Claim C4, as the code has it. The cleaning loop trims the column names and leaves the
  values as they are: looking a name up in the cleaned row gives the value of the last
  column of the row whose trimmed name it is (and nothing under \<open>__proto__\<close>); a row
  whose names are already trimmed is cleaned to the same row; a header \<open>" Price "\<close>
  gives the row that \<open>"Price"\<close> gives, and its value is read under \<open>Price\<close>.
\<close>

theorem header_trimming:
  "map_of (cleanRow row) k =
     (if k = ''__proto__'' then None
      else map_of (rev (map (\<lambda>(key, v). (trim key, v)) row)) k)
   \<and> cleanRow (map (\<lambda>(key, v). (trim key, v)) row) = cleanRow row
   \<and> cleanRow [('' Price '', v)] = cleanRow [(''Price'', v)]
   \<and> js_get (cleanRow [('' Price '', v)]) ''Price'' = v"
proof (intro conjI)
  show "map_of (cleanRow row) k =
     (if k = ''__proto__'' then None
      else map_of (rev (map (\<lambda>(key, v). (trim key, v)) row)) k)"
    by (rule cleanRow_lookup)
  show "cleanRow (map (\<lambda>(key, v). (trim key, v)) row) = cleanRow row"
    by (simp add: cleanRow_def cleanRow_loop_trimmed)
  have t: "trim '' Price '' = ''Price''" "trim ''Price'' = ''Price''" by code_simp+
  have i: "\<not> isArrayIndex ''Price''" by code_simp
  show "cleanRow [('' Price '', v)] = cleanRow [(''Price'', v)]"
    by (simp add: cleanRow_def t)
  show "js_get (cleanRow [('' Price '', v)]) ''Price'' = v"
    by (simp add: cleanRow_def t i js_assign_def js_get_def)
qed

text \<open>
  Claim C4 as stated fails for the values: the cell \<open>" 9 "\<close> under the header
  \<open>" Price "\<close> is in the cleaned row as it was, and trimming would have changed it.
\<close>

theorem loader_values_counterexample:
  "cleanedData [[('' Price '', JStr '' 9 '')]] = [[(''Price'', JStr '' 9 '')]]
   \<and> trim '' 9 '' = ''9''"
  by code_simp

section \<open>Runs of the handler\<close>

lemma io_bind_Inl [simp]: "io_bind (t, Inl e) f = (t, Inl e)"
  by (simp add: io_bind_def)

lemma io_bind_Inr [simp]: "io_bind (t, Inr x) f = (t @ fst (f x), snd (f x))"
  by (simp add: io_bind_def split: prod.split)

lemma io_bind_ret [simp]: "io_bind (io_ret x) f = f x"
  by (simp add: io_ret_def)

lemma io_bind_log [simp]: "io_bind (console_log l) f = (ConsoleLog l # fst (f ()), snd (f ()))"
  by (simp add: console_log_def)

lemma io_bind_of [simp]:
  "io_bind (io_of r) f = (case r of Inl e \<Rightarrow> ([], Inl e) | Inr x \<Rightarrow> f x)"
  by (cases r) (simp_all add: io_of_def)

lemma io_bind_call [simp]:
  "io_bind (io_call ev throws e x) f =
     (if throws then ([ev], Inl e) else (ev # fst (f x), snd (f x)))"
  by (simp add: io_call_def)

lemma snd_io_bind:
  "snd (io_bind m f) = (case snd m of Inl e \<Rightarrow> Inl e | Inr x \<Rightarrow> snd (f x))"
  by (cases m; cases "snd m") auto

lemma renderCard_result:
  "snd (renderCard env bg item) =
     (case extract_fields item of
        Inl e \<Rightarrow> Inl e
      | Inr f \<Rightarrow>
          (case findProductImage (existsSync env) (dirname env) (productImageSlug (text' f)) of
             None \<Rightarrow>
               if sharp_throws env (spec_card bg None f) then Inl SharpError
               else Inr (spec_card bg None f)
           | Some p \<Rightarrow>
               if sharp_throws env (FileImage p)
                  \<or> sharp_throws env (ResizedInside (FileImage p) 150 150)
                  \<or> sharp_throws env (spec_card bg (Some p) f)
               then Inl SharpError
               else Inr (spec_card bg (Some p) f)))"
  by (simp add: renderCard_def sharp_toBuffer_def spec_card_def cardCanvas_def Let_def io_call_def
      io_ret_def split: sum.split option.split)

lemma io_bind_InrE:
  assumes "io_bind m f = (t, Inr y)"
  obtains t1 x t2 where "m = (t1, Inr x)" and "f x = (t2, Inr y)" and "t = t1 @ t2"
proof -
  obtain t1 r where m: "m = (t1, r)" by (cases m)
  show thesis
  proof (cases r)
    case (Inl e)
    with assms m show thesis by simp
  next
    case (Inr x)
    obtain t2 r2 where f: "f x = (t2, r2)" by (cases "f x")
    with assms m Inr have "t = t1 @ t2" and "r2 = Inr y" by simp_all
    with m Inr f that show thesis by blast
  qed
qed

lemma renderLoop_Inr:
  "renderLoop env bg rows i acc = (t, Inr cards) \<Longrightarrow> i \<le> length rows \<Longrightarrow>
     length cards = length acc + (length rows - i)
     \<and> take (length acc) cards = acc
     \<and> (\<forall>j. i \<le> j \<and> j < length rows \<longrightarrow>
           snd (renderCard env bg (rows ! j)) = Inr (cards ! (length acc + (j - i))))"
proof (induction env bg rows i acc arbitrary: t rule: renderLoop.induct)
  case (1 env bg rows i acc)
  show ?case
  proof (cases "i < length rows")
    case False
    with "1.prems" have "cards = acc" and "i = length rows"
      by (simp_all add: renderLoop.simps [of env bg rows i acc] io_ret_def)
    then show ?thesis by auto
  next
    case True
    with "1.prems" have
      "io_bind (renderCard env bg (rows ! i))
         (\<lambda>b. renderLoop env bg rows (i + 1) (acc @ [b])) = (t, Inr cards)"
      by (simp add: renderLoop.simps [of env bg rows i acc])
    then obtain t1 b t2 where c: "renderCard env bg (rows ! i) = (t1, Inr b)"
      and r: "renderLoop env bg rows (i + 1) (acc @ [b]) = (t2, Inr cards)"
      by (rule io_bind_InrE)
    from True have le: "i + 1 \<le> length rows" by simp
    note ih = "1.IH" [OF True r le]
    from ih have len: "length cards = length acc + 1 + (length rows - (i + 1))"
      and tk: "take (length acc + 1) cards = acc @ [b]"
      and rest: "\<forall>j. i + 1 \<le> j \<and> j < length rows \<longrightarrow>
           snd (renderCard env bg (rows ! j)) = Inr (cards ! (length acc + 1 + (j - (i + 1))))"
      by simp_all
    from len True have l: "length cards = length acc + (length rows - i)" by simp
    from tk have "take (length acc) (take (length acc + 1) cards) = take (length acc) (acc @ [b])"
      by simp
    then have t0: "take (length acc) cards = acc" by (simp add: min_def)
    from tk len have "cards ! length acc = (acc @ [b]) ! length acc"
      by (metis less_add_one nth_take)
    then have b: "cards ! length acc = b" by simp
    have "snd (renderCard env bg (rows ! j)) = Inr (cards ! (length acc + (j - i)))"
      if j: "i \<le> j \<and> j < length rows" for j
    proof (cases "j = i")
      case True
      with c b show ?thesis by simp
    next
      case False
      with j have "i + 1 \<le> j \<and> j < length rows" by simp
      with rest have "snd (renderCard env bg (rows ! j)) = Inr (cards ! (length acc + 1 + (j - (i + 1))))"
        by blast
      moreover from False j have "length acc + 1 + (j - (i + 1)) = length acc + (j - i)" by arith
      ultimately show ?thesis by metis
    qed
    with l t0 show ?thesis by blast
  qed
qed

lemma renderLoop_cards:
  assumes "renderLoop env bg rows 0 [] = (t, Inr cards)"
  shows "length cards = length rows"
    and "i < length rows \<Longrightarrow> snd (renderCard env bg (rows ! i)) = Inr (cards ! i)"
  using renderLoop_Inr [OF assms] by simp_all

lemma renderCard_Inr:
  assumes "renderCard env bg item = (t, Inr cardImage)"
  shows "\<exists>f. extract_fields item = Inr f
           \<and> cardImage = spec_card bg (findProductImage (existsSync env) (dirname env)
                                   (productImageSlug (text' f))) f"
proof -
  from assms have "snd (renderCard env bg item) = Inr cardImage" by simp
  then show ?thesis
    unfolding renderCard_result
    by (auto split: sum.splits option.splits if_splits)
qed

section \<open>The sample requests, evaluated\<close>

lemma sample_cleaned: "cleanedData sample_rows = [milk_row, eggs_row]"
  by code_simp

lemma sample_fields: "extract_fields milk_row = Inr milk_fields" "extract_fields eggs_row = Inr eggs_fields"
  by code_simp+

lemma sample_paths:
  "findProductImage (existsSync sample_env) (dirname sample_env) (productImageSlug (text' milk_fields))
     = Some [''/app'', ''images'', ''fresh-milk.jpg'']"
  "findProductImage (existsSync sample_env) (dirname sample_env) (productImageSlug (text' eggs_fields))
     = None"
  by code_simp+

lemma sample_loop:
  "snd (renderLoop sample_env (Some sample_background) [milk_row, eggs_row] 0 []) =
     Inr [milk_card, eggs_card]"
  "snd (renderLoop undeletable_env (Some sample_background) [milk_row] 0 []) = Inr [milk_card]"
  by code_simp+

section \<open>The render loop: one card per row\<close>

text \<open>
  Claim C8. Take two completed runs of the render loop, over any two lists of rows and
  in any two worlds that agree on the image directory (and with the same background).
  If row \<open>i\<close> is the same in both, then card \<open>i\<close> is the same in both: it is the card
  of that row alone, the composite of the background, the product image resolved for
  the row's name, and the text of the row's fields.
\<close>

theorem cards_independent:
  assumes "renderLoop env bg rows 0 [] = (t, Inr cards)"
    and "renderLoop env' bg rows' 0 [] = (t', Inr cards')"
    and "dirname env' = dirname env" and "existsSync env' = existsSync env"
    and "i < length rows" and "i < length rows'" and "rows' ! i = rows ! i"
  shows "cards' ! i = cards ! i
     \<and> length cards = length rows
     \<and> snd (renderCard env bg (rows ! i)) = Inr (cards ! i)
     \<and> (\<exists>f. extract_fields (rows ! i) = Inr f
           \<and> cards ! i = spec_card bg (findProductImage (existsSync env) (dirname env)
                                        (productImageSlug (text' f))) f)"
proof -
  have len: "length cards = length rows"
    by (rule renderLoop_cards(1) [OF assms(1)])
  have c: "snd (renderCard env bg (rows ! i)) = Inr (cards ! i)"
    by (rule renderLoop_cards(2) [OF assms(1) assms(5)])
  have c': "snd (renderCard env' bg (rows ! i)) = Inr (cards' ! i)"
    using renderLoop_cards(2) [OF assms(2) assms(6)] assms(7) by simp
  from c have "renderCard env bg (rows ! i) = (fst (renderCard env bg (rows ! i)), Inr (cards ! i))"
    by (simp add: prod_eq_iff)
  from renderCard_Inr [OF this] obtain f where f: "extract_fields (rows ! i) = Inr f"
    and k: "cards ! i = spec_card bg (findProductImage (existsSync env) (dirname env)
                                        (productImageSlug (text' f))) f" by blast
  from c' have "renderCard env' bg (rows ! i) = (fst (renderCard env' bg (rows ! i)), Inr (cards' ! i))"
    by (simp add: prod_eq_iff)
  from renderCard_Inr [OF this] f assms(3,4)
  have "cards' ! i = spec_card bg (findProductImage (existsSync env) (dirname env)
                                        (productImageSlug (text' f))) f" by simp
  with k len c f show ?thesis by simp
qed


theorem cards_independent_witness:
  "renderLoop sample_env (Some sample_background) [milk_row, eggs_row] 0 [] =
     (fst (renderLoop sample_env (Some sample_background) [milk_row, eggs_row] 0 []),
      Inr [milk_card, eggs_card])
   \<and> renderLoop undeletable_env (Some sample_background) [milk_row] 0 [] =
     (fst (renderLoop undeletable_env (Some sample_background) [milk_row] 0 []), Inr [milk_card])
   \<and> dirname undeletable_env = dirname sample_env
   \<and> existsSync undeletable_env = existsSync sample_env
   \<and> (0::nat) < length [milk_row, eggs_row] \<and> (0::nat) < length [milk_row]
   \<and> [milk_row] ! 0 = [milk_row, eggs_row] ! 0
   \<and> [milk_card] ! 0 = [milk_card, eggs_card] ! 0
   \<and> snd (renderCard sample_env (Some sample_background) ([milk_row, eggs_row] ! 0))
       = Inr ([milk_card, eggs_card] ! 0)"
proof -
  have r1: "renderLoop sample_env (Some sample_background) [milk_row, eggs_row] 0 [] =
     (fst (renderLoop sample_env (Some sample_background) [milk_row, eggs_row] 0 []),
      Inr [milk_card, eggs_card])"
    by (simp add: prod_eq_iff sample_loop)
  have r2: "renderLoop undeletable_env (Some sample_background) [milk_row] 0 [] =
     (fst (renderLoop undeletable_env (Some sample_background) [milk_row] 0 []), Inr [milk_card])"
    by (simp add: prod_eq_iff sample_loop)
  have e: "dirname undeletable_env = dirname sample_env"
    "existsSync undeletable_env = existsSync sample_env"
    by (simp_all add: undeletable_env_def)
  have i: "(0::nat) < length [milk_row, eggs_row]" "(0::nat) < length [milk_row]"
    "[milk_row] ! 0 = [milk_row, eggs_row] ! 0" by simp_all
  from cards_independent [OF r1 r2 e i]
  have "[milk_card] ! 0 = [milk_card, eggs_card] ! 0"
    and "snd (renderCard sample_env (Some sample_background) ([milk_row, eggs_row] ! 0))
       = Inr ([milk_card, eggs_card] ! 0)"
    by blast+
  with r1 r2 e i show ?thesis by blast
qed

section \<open>The export: its first call\<close>

lemma export_first_call:
  "\<exists>rest. fst (export env n bufs) =
     SharpToFile (stitched n bufs) [dirname env, ''public'', ''price-sheet.png''] # rest"
  by (simp add: export_def Let_def)

section \<open>The upload handler: requests that fail\<close>

lemma load_readFile_throws:
  "xlsx_readFile env [dirname env, ''uploads'', f] = Inl e \<Longrightarrow>
   load env f = ([ReadFile [dirname env, ''uploads'', f]], Inl e)"
  by (simp add: load_def Let_def)

lemma load_convert_throws:
  "xlsx_readFile env [dirname env, ''uploads'', f] = Inr wb \<Longrightarrow>
   sheet_to_json env (first_sheet wb) = Inl e \<Longrightarrow>
   load env f = ([ReadFile [dirname env, ''uploads'', f]], Inl e)"
  by (simp add: load_def Let_def)

lemma load_converted:
  "xlsx_readFile env [dirname env, ''uploads'', f] = Inr wb \<Longrightarrow>
   sheet_to_json env (first_sheet wb) = Inr rows \<Longrightarrow>
   load env f =
     ([ReadFile [dirname env, ''uploads'', f], ConsoleLog (LogRows ''Parsed Data:'' rows),
       UnlinkSync [dirname env, ''uploads'', f]],
      if unlinkSync_throws env [dirname env, ''uploads'', f] then Inl FsError else Inr rows)"
  by (simp add: load_def io_ret_def Let_def)

lemma upload_load:
  "req_file env = Some f \<Longrightarrow> load env f = (t, Inl e) \<Longrightarrow> upload env = (t, Inl e)"
  by (simp add: upload_def)


text \<open>
  Claim C6. A request without a file gets status 400 with the text body
  \<open>No file uploaded.\<close>, and this answer is the only call the handler makes.
\<close>

theorem no_file_rejected:
  "req_file env = None \<Longrightarrow>
   upload env = ([Respond \<lparr>status = 400, body = Text ''No file uploaded.''\<rparr>], Inr ())"
  by (simp add: upload_def)

theorem no_file_rejected_witness:
  "req_file no_file_env = None
   \<and> upload no_file_env = ([Respond \<lparr>status = 400, body = Text ''No file uploaded.''\<rparr>], Inr ())"
proof -
  have h: "req_file no_file_env = None" by (simp add: no_file_env_def)
  from no_file_rejected [OF h] h show ?thesis by simp
qed

text \<open>
  Claim C5, as the code has it. When \<open>xlsx.readFile\<close> throws, the handler ends with that
  exception and its only call is the read: nothing is deleted, rendered, written or
  answered. A workbook without sheets is no error of the handler: the undefined sheet
  goes to \<open>sheet_to_json\<close>, and the load stage goes on with the rows that call returns
  (or ends with what it throws).
\<close>

theorem load_failure_aborts:
  "(req_file env = Some f \<and> xlsx_readFile env [dirname env, ''uploads'', f] = Inl e \<longrightarrow>
      upload env = ([ReadFile [dirname env, ''uploads'', f]], Inl e))
   \<and> (xlsx_readFile env [dirname env, ''uploads'', f] = Inr wb
        \<and> SheetNames wb = [] \<and> Sheets wb = [] \<longrightarrow>
      load env f =
        (case sheet_to_json_undefined env of
           Inl e' \<Rightarrow> ([ReadFile [dirname env, ''uploads'', f]], Inl e')
         | Inr rows \<Rightarrow>
             ([ReadFile [dirname env, ''uploads'', f], ConsoleLog (LogRows ''Parsed Data:'' rows),
               UnlinkSync [dirname env, ''uploads'', f]],
              if unlinkSync_throws env [dirname env, ''uploads'', f] then Inl FsError
              else Inr rows)))"
proof (intro conjI impI)
  assume "req_file env = Some f \<and> xlsx_readFile env [dirname env, ''uploads'', f] = Inl e"
  then show "upload env = ([ReadFile [dirname env, ''uploads'', f]], Inl e)"
    using upload_load load_readFile_throws by blast
next
  assume a: "xlsx_readFile env [dirname env, ''uploads'', f] = Inr wb
        \<and> SheetNames wb = [] \<and> Sheets wb = []"
  then have s: "sheet_to_json env (first_sheet wb) = sheet_to_json_undefined env"
    by (simp add: sheet_to_json_def first_sheet_def)
  show "load env f =
        (case sheet_to_json_undefined env of
           Inl e' \<Rightarrow> ([ReadFile [dirname env, ''uploads'', f]], Inl e')
         | Inr rows \<Rightarrow>
             ([ReadFile [dirname env, ''uploads'', f], ConsoleLog (LogRows ''Parsed Data:'' rows),
               UnlinkSync [dirname env, ''uploads'', f]],
              if unlinkSync_throws env [dirname env, ''uploads'', f] then Inl FsError
              else Inr rows))"
  proof (cases "sheet_to_json_undefined env")
    case (Inl e')
    with a s show ?thesis by (simp add: load_convert_throws)
  next
    case (Inr rows)
    with a s show ?thesis by (simp add: load_converted)
  qed
qed

theorem load_failure_aborts_witness:
  "req_file unreadable_env = Some ''f1''
   \<and> xlsx_readFile unreadable_env [dirname unreadable_env, ''uploads'', ''f1''] = Inl XlsxError
   \<and> upload unreadable_env = ([ReadFile [''/app'', ''uploads'', ''f1'']], Inl XlsxError)
   \<and> xlsx_readFile no_sheets_env [dirname no_sheets_env, ''uploads'', ''f1'']
       = Inr \<lparr>SheetNames = [], Sheets = []\<rparr>
   \<and> load no_sheets_env ''f1'' =
       ([ReadFile [''/app'', ''uploads'', ''f1''], ConsoleLog (LogRows ''Parsed Data:'' []),
         UnlinkSync [''/app'', ''uploads'', ''f1'']], Inr [])"
proof -
  have h1: "req_file unreadable_env = Some ''f1''
      \<and> xlsx_readFile unreadable_env [dirname unreadable_env, ''uploads'', ''f1''] = Inl XlsxError"
    by (simp add: unreadable_env_def sample_env_def)
  have h2: "xlsx_readFile no_sheets_env [dirname no_sheets_env, ''uploads'', ''f1'']
       = Inr \<lparr>SheetNames = [], Sheets = []\<rparr>
      \<and> SheetNames \<lparr>SheetNames = [], Sheets = []\<rparr> = []
      \<and> Sheets \<lparr>SheetNames = [], Sheets = []\<rparr> = []"
    by (simp add: no_sheets_env_def sample_env_def)
  have d: "dirname unreadable_env = ''/app''" "dirname no_sheets_env = ''/app''"
    "sheet_to_json_undefined no_sheets_env = Inr []"
    "\<not> unlinkSync_throws no_sheets_env [''/app'', ''uploads'', ''f1'']"
    by (simp_all add: unreadable_env_def no_sheets_env_def sample_env_def)
  from load_failure_aborts [of unreadable_env "''f1''" XlsxError] h1
  have a: "upload unreadable_env = ([ReadFile [dirname unreadable_env, ''uploads'', ''f1'']], Inl XlsxError)"
    by blast
  from load_failure_aborts [of no_sheets_env "''f1''" _ "\<lparr>SheetNames = [], Sheets = []\<rparr>"] h2
  have b: "load no_sheets_env ''f1'' =
        (case sheet_to_json_undefined no_sheets_env of
           Inl e' \<Rightarrow> ([ReadFile [dirname no_sheets_env, ''uploads'', ''f1'']], Inl e')
         | Inr rows \<Rightarrow>
             ([ReadFile [dirname no_sheets_env, ''uploads'', ''f1''], ConsoleLog (LogRows ''Parsed Data:'' rows),
               UnlinkSync [dirname no_sheets_env, ''uploads'', ''f1'']],
              if unlinkSync_throws no_sheets_env [dirname no_sheets_env, ''uploads'', ''f1''] then Inl FsError
              else Inr rows))"
    by blast
  from a b h1 h2 d show ?thesis by simp
qed

text \<open>
  Claim C5 as stated fails. For a workbook without sheets, with the libraries in use,
  the handler deletes the upload, loads the background and asks for a grid of height 0;
  the run ends in the export with sharp's error, not in the load stage. For an
  unreadable file the run ends with the exception of the read and without an answer.
\<close>

theorem no_sheets_counterexample:
  "upload no_sheets_env =
     ([ReadFile [''/app'', ''uploads'', ''f1''],
       ConsoleLog (LogRows ''Parsed Data:'' []),
       UnlinkSync [''/app'', ''uploads'', ''f1''],
       ConsoleLog (LogRows ''Cleaned Data:'' []),
       SharpToBuffer (FileImage [''/app'', ''images'', ''background.png'']),
       SharpToFile
         (Composite \<lparr>width = 2400, height = 0, channels = 4, background = (255, 255, 255, 1)\<rparr> [])
         [''/app'', ''public'', ''price-sheet.png'']],
      Inl SharpError)
   \<and> upload unreadable_env = ([ReadFile [''/app'', ''uploads'', ''f1'']], Inl XlsxError)"
  by code_simp

text \<open>
  Claim C7, as the code has it. When the workbook was read and converted, the deletion
  of the upload is the third call, after the read and the log of the parsed rows. When
  the deletion throws, the run ends there with that exception: nothing more is logged
  and no answer is written. When the read throws, the upload is not deleted.
\<close>

theorem upload_cleanup:
  "(req_file env = Some f
      \<and> xlsx_readFile env [dirname env, ''uploads'', f] = Inr wb
      \<and> sheet_to_json env (first_sheet wb) = Inr rows
      \<and> \<not> unlinkSync_throws env [dirname env, ''uploads'', f] \<longrightarrow>
      take 3 (fst (upload env)) =
        [ReadFile [dirname env, ''uploads'', f], ConsoleLog (LogRows ''Parsed Data:'' rows),
         UnlinkSync [dirname env, ''uploads'', f]])
   \<and> (req_file env = Some f
      \<and> xlsx_readFile env [dirname env, ''uploads'', f] = Inr wb
      \<and> sheet_to_json env (first_sheet wb) = Inr rows
      \<and> unlinkSync_throws env [dirname env, ''uploads'', f] \<longrightarrow>
      upload env =
        ([ReadFile [dirname env, ''uploads'', f], ConsoleLog (LogRows ''Parsed Data:'' rows),
          UnlinkSync [dirname env, ''uploads'', f]], Inl FsError))
   \<and> (req_file env = Some f
      \<and> xlsx_readFile env [dirname env, ''uploads'', f] = Inl e \<longrightarrow>
      upload env = ([ReadFile [dirname env, ''uploads'', f]], Inl e))"
proof (intro conjI impI)
  assume a: "req_file env = Some f
      \<and> xlsx_readFile env [dirname env, ''uploads'', f] = Inr wb
      \<and> sheet_to_json env (first_sheet wb) = Inr rows
      \<and> \<not> unlinkSync_throws env [dirname env, ''uploads'', f]"
  then have "load env f =
     ([ReadFile [dirname env, ''uploads'', f], ConsoleLog (LogRows ''Parsed Data:'' rows),
       UnlinkSync [dirname env, ''uploads'', f]], Inr rows)"
    by (simp add: load_converted)
  with a show "take 3 (fst (upload env)) =
        [ReadFile [dirname env, ''uploads'', f], ConsoleLog (LogRows ''Parsed Data:'' rows),
         UnlinkSync [dirname env, ''uploads'', f]]"
    by (simp add: upload_def)
next
  assume a: "req_file env = Some f
      \<and> xlsx_readFile env [dirname env, ''uploads'', f] = Inr wb
      \<and> sheet_to_json env (first_sheet wb) = Inr rows
      \<and> unlinkSync_throws env [dirname env, ''uploads'', f]"
  then have "load env f =
     ([ReadFile [dirname env, ''uploads'', f], ConsoleLog (LogRows ''Parsed Data:'' rows),
       UnlinkSync [dirname env, ''uploads'', f]], Inl FsError)"
    by (simp add: load_converted)
  with a show "upload env =
        ([ReadFile [dirname env, ''uploads'', f], ConsoleLog (LogRows ''Parsed Data:'' rows),
          UnlinkSync [dirname env, ''uploads'', f]], Inl FsError)"
    using upload_load by blast
next
  assume "req_file env = Some f \<and> xlsx_readFile env [dirname env, ''uploads'', f] = Inl e"
  then show "upload env = ([ReadFile [dirname env, ''uploads'', f]], Inl e)"
    using upload_load load_readFile_throws by blast
qed

theorem upload_cleanup_witness:
  "req_file undeletable_env = Some ''f1''
   \<and> xlsx_readFile undeletable_env [dirname undeletable_env, ''uploads'', ''f1'']
       = Inr \<lparr>SheetNames = [''Sheet1''], Sheets = [(''Sheet1'', sample_rows)]\<rparr>
   \<and> sheet_to_json undeletable_env
        (first_sheet \<lparr>SheetNames = [''Sheet1''], Sheets = [(''Sheet1'', sample_rows)]\<rparr>)
       = Inr sample_rows
   \<and> unlinkSync_throws undeletable_env [dirname undeletable_env, ''uploads'', ''f1'']
   \<and> upload undeletable_env =
        ([ReadFile [''/app'', ''uploads'', ''f1''], ConsoleLog (LogRows ''Parsed Data:'' sample_rows),
          UnlinkSync [''/app'', ''uploads'', ''f1'']], Inl FsError)"
proof -
  let ?wb = "\<lparr>SheetNames = [''Sheet1''], Sheets = [(''Sheet1'', sample_rows)]\<rparr>"
  have h: "req_file undeletable_env = Some ''f1''
   \<and> xlsx_readFile undeletable_env [dirname undeletable_env, ''uploads'', ''f1''] = Inr ?wb
   \<and> sheet_to_json undeletable_env (first_sheet ?wb) = Inr sample_rows
   \<and> unlinkSync_throws undeletable_env [dirname undeletable_env, ''uploads'', ''f1'']"
    by (simp add: undeletable_env_def sample_env_def sheet_to_json_def first_sheet_def)
  have d: "dirname undeletable_env = ''/app''"
    by (simp add: undeletable_env_def sample_env_def)
  from upload_cleanup [of undeletable_env "''f1''" ?wb sample_rows] h
  have "upload undeletable_env =
        ([ReadFile [dirname undeletable_env, ''uploads'', ''f1''],
          ConsoleLog (LogRows ''Parsed Data:'' sample_rows),
          UnlinkSync [dirname undeletable_env, ''uploads'', ''f1'']], Inl FsError)"
    by blast
  with h d show ?thesis by simp
qed

text \<open>
  Claim C7 as stated fails. An upload that cannot be deleted ends the run with the
  file-system exception, and the deletion is the last call made; an unreadable upload
  is never deleted.
\<close>

theorem cleanup_counterexample:
  "upload undeletable_env =
     ([ReadFile [''/app'', ''uploads'', ''f1''], ConsoleLog (LogRows ''Parsed Data:'' sample_rows),
       UnlinkSync [''/app'', ''uploads'', ''f1'']], Inl FsError)
   \<and> fst (upload unreadable_env) = [ReadFile [''/app'', ''uploads'', ''f1'']]
   \<and> UnlinkSync [''/app'', ''uploads'', ''f1''] \<notin> set (fst (upload unreadable_env))"
  by code_simp

section \<open>Runs of the handler that complete\<close>

lemma template_numbers:
  "js_String (JNum productY) = ''50''" "js_String (JNum descriptionY) = ''90''"
  "js_String (JNum priceX) = ''600''" "js_String (JNum priceY) = ''100''"
  "js_String (JNum oldPriceY) = ''140''"
  by code_simp+

lemma svg_of_elements:
  "\<exists>a b c d e g.
     svg_of f =
       ''<svg width=\"800\" height=\"200\">'' @ a
       @ svg_text ''20'' ''50'' ''40'' ''black'' '' font-weight=\"bold\"'' (text' f) @ b
       @ svg_text ''20'' ''90'' ''20'' ''black'' [] (description f) @ c
       @ svg_text ''600'' ''50'' ''30'' ''red'' [] (discountInfo f) @ d
       @ svg_text ''600'' ''100'' ''40'' ''black'' '' font-weight=\"bold\"'' (price f) @ e
       @ svg_text ''600'' ''140'' ''20'' ''gray'' '' text-decoration=\"line-through\"'' (oldPrice f) @ g
       @ ''</svg>''"
  apply (rule exI [where x = "nl @ indent @ ''<!-- Product Name -->'' @ nl @ indent"])
  apply (rule exI [where x = "nl @ indent @ nl @ indent @ ''<!-- Description -->'' @ nl @ indent"])
  apply (rule exI [where x = "nl @ nl @ indent @ ''<!-- Discount Info (positioned right) -->'' @ nl @ indent"])
  apply (rule exI [where x = "nl @ nl @ indent @ ''<!-- Current Price (right next to discount info) -->'' @ nl @ indent"])
  apply (rule exI [where x = "nl @ nl @ indent @ ''<!-- Old Price -->'' @ nl @ indent"])
  apply (rule exI [where x = "nl @ replicate 8 (CHR '' '')"])
  apply (simp add: svg_of_def svg_text_def template_numbers del: js_String.simps)
  done


lemma loadBackground_Inr:
  assumes "loadBackground env = (t, Inr bg)"
  shows "bg = (if existsSync env [dirname env, ''images'', ''background.png'']
               then Some (FileImage [dirname env, ''images'', ''background.png'']) else None)"
  using assms
  by (auto simp: loadBackground_def Let_def sharp_toBuffer_def io_call_def io_ret_def
      split: if_splits)

lemma export_run:
  assumes "\<not> sharp_throws env (stitched n bufs)"
    and "\<not> readFileSync_throws env [dirname env, ''public'', ''price-sheet.png'']"
    and "\<not> pdf_throws env \<lparr>pageSize = (totalWidth, totalHeight n), drawn = stitched n bufs,
                              drawAt = (0, 0), drawSize = (totalWidth, totalHeight n)\<rparr>"
    and "\<not> writeFileSync_throws env [dirname env, ''public'', ''price-sheet.pdf'']"
  shows "export env n bufs =
     ([SharpToFile (stitched n bufs) [dirname env, ''public'', ''price-sheet.png''],
       ReadFileSync [dirname env, ''public'', ''price-sheet.png''],
       PdfSave \<lparr>pageSize = (totalWidth, totalHeight n), drawn = stitched n bufs,
                 drawAt = (0, 0), drawSize = (totalWidth, totalHeight n)\<rparr>,
       WriteFileSync [dirname env, ''public'', ''price-sheet.pdf'']
         \<lparr>pageSize = (totalWidth, totalHeight n), drawn = stitched n bufs,
           drawAt = (0, 0), drawSize = (totalWidth, totalHeight n)\<rparr>,
       Respond \<lparr>status = 200,
                 body = Json [(''message'', ''Price sheet generated successfully!''),
                              (''imageUrl'', ''/price-sheet.png''),
                              (''pdfUrl'', ''/price-sheet.pdf'')]\<rparr>], Inr ())"
  using assms by (simp add: export_def Let_def)

lemma upload_run:
  assumes "req_file env = Some fn"
    and "load env fn = (t1, Inr data)"
    and "loadBackground env = (t2, Inr bg)"
    and "renderLoop env bg (cleanedData data) 0 [] = (t3, Inr bufs)"
    and "export env (length data) bufs = (t4, r)"
  shows "upload env =
     (t1 @ ConsoleLog (LogRows ''Cleaned Data:'' (cleanedData data)) # t2 @ t3 @ t4, r)"
  using assms by (simp add: upload_def Let_def cleanedData_def)

lemma upload_completed:
  assumes "req_file env = Some fn" and "upload env = (tr, Inr u)"
  obtains data bg bufs t1 t2 t3 t4 where
    "load env fn = (t1, Inr data)" and "loadBackground env = (t2, Inr bg)"
    and "renderLoop env bg (cleanedData data) 0 [] = (t3, Inr bufs)"
    and "export env (length data) bufs = (t4, Inr u)"
    and "tr = t1 @ ConsoleLog (LogRows ''Cleaned Data:'' (cleanedData data)) # t2 @ t3 @ t4"
proof -
  from assms have
    "io_bind (load env fn) (\<lambda>data.
       io_bind (console_log (LogRows ''Cleaned Data:'' (cleanedData data))) (\<lambda>_.
       io_bind (loadBackground env) (\<lambda>backgroundImage.
       io_bind (renderLoop env backgroundImage (cleanedData data) 0 []) (\<lambda>imageBuffers.
       export env (length (cleanedData data)) imageBuffers)))) = (tr, Inr u)"
    by (simp add: upload_def Let_def)
  then obtain t1 data ta where l: "load env fn = (t1, Inr data)"
    and a: "io_bind (console_log (LogRows ''Cleaned Data:'' (cleanedData data))) (\<lambda>_.
       io_bind (loadBackground env) (\<lambda>backgroundImage.
       io_bind (renderLoop env backgroundImage (cleanedData data) 0 []) (\<lambda>imageBuffers.
       export env (length (cleanedData data)) imageBuffers))) = (ta, Inr u)"
    and tr: "tr = t1 @ ta"
    by (rule io_bind_InrE)
  from a obtain tl tb where lg: "console_log (LogRows ''Cleaned Data:'' (cleanedData data)) = (tl, Inr ())"
    and b: "io_bind (loadBackground env) (\<lambda>backgroundImage.
       io_bind (renderLoop env backgroundImage (cleanedData data) 0 []) (\<lambda>imageBuffers.
       export env (length (cleanedData data)) imageBuffers)) = (tb, Inr u)"
    and ta: "ta = tl @ tb"
    by (rule io_bind_InrE) simp
  from lg have tl: "tl = [ConsoleLog (LogRows ''Cleaned Data:'' (cleanedData data))]"
    by (simp add: console_log_def)
  from b obtain t2 bg tc where bgl: "loadBackground env = (t2, Inr bg)"
    and c: "io_bind (renderLoop env bg (cleanedData data) 0 []) (\<lambda>imageBuffers.
       export env (length (cleanedData data)) imageBuffers) = (tc, Inr u)"
    and tb: "tb = t2 @ tc"
    by (rule io_bind_InrE)
  from c obtain t3 bufs t4 where rl: "renderLoop env bg (cleanedData data) 0 [] = (t3, Inr bufs)"
    and ex: "export env (length (cleanedData data)) bufs = (t4, Inr u)"
    and tc: "tc = t3 @ t4"
    by (rule io_bind_InrE)
  from ex have ex': "export env (length data) bufs = (t4, Inr u)" by (simp add: cleanedData_def)
  from tr ta tl tb tc
  have "tr = t1 @ ConsoleLog (LogRows ''Cleaned Data:'' (cleanedData data)) # t2 @ t3 @ t4" by simp
  with l bgl rl ex' that show thesis by blast
qed

lemma cleanedData_nth: "i < length data \<Longrightarrow> cleanedData data ! i = cleanRow (data ! i)"
  by (simp add: cleanedData_def)

lemma sample_load:
  "load sample_env ''f1'' =
     ([ReadFile [''/app'', ''uploads'', ''f1''], ConsoleLog (LogRows ''Parsed Data:'' sample_rows),
       UnlinkSync [''/app'', ''uploads'', ''f1'']], Inr sample_rows)"
  by (simp add: load_def Let_def sample_env_def sheet_to_json_def first_sheet_def io_ret_def)

lemma sample_loadBackground:
  "loadBackground sample_env = ([SharpToBuffer sample_background], Inr (Some sample_background))"
  by (simp add: loadBackground_def Let_def sample_env_def sharp_toBuffer_def sample_background_def
      io_ret_def)

lemma sample_render:
  "renderLoop sample_env (Some sample_background) (cleanedData sample_rows) 0 [] =
     (fst (renderLoop sample_env (Some sample_background) (cleanedData sample_rows) 0 []),
      Inr [milk_card, eggs_card])"
  by (simp add: prod_eq_iff sample_cleaned sample_loop)

lemma sample_world:
  "req_file sample_env = Some ''f1''"
  "dirname sample_env = ''/app''"
  "sharp_throws sample_env img = False"
  "readFileSync_throws sample_env p = False"
  "pdf_throws sample_env d = False"
  "writeFileSync_throws sample_env p = False"
  by (simp_all add: sample_env_def)


lemma sample_cards:
  "snd (renderCard sample_env (Some sample_background) milk_row) = Inr milk_card"
  "snd (renderCard sample_env (Some sample_background) eggs_row) = Inr eggs_card"
  by (simp_all add: renderCard_result sample_fields sample_paths sample_world(3)
      milk_card_def eggs_card_def)

lemma sample_upload: "snd (upload sample_env) = Inr ()"
proof -
  have "export sample_env (length sample_rows) [milk_card, eggs_card] =
     (fst (export sample_env (length sample_rows) [milk_card, eggs_card]), Inr ())"
    by (simp add: export_def Let_def sample_world)
  from upload_run [OF sample_world(1) sample_load sample_loadBackground sample_render this]
  show ?thesis by simp
qed

section \<open>The grid compositor: the rows on the canvas\<close>

text \<open>
  Claim C1, as the code has it. Take an upload of \<open>n\<close> rows that is read, whose
  background stage and render loop complete, and for which sharp accepts the grid and
  the calls after it do not throw. Then the run completes with the JSON answer, and the
  grid it writes to \<open>price-sheet.png\<close> is a canvas of width 3 times 800 and height
  \<open>ceil(n / 3)\<close> times 200, four channels, opaque white, with one layer per row in the
  order of the rows: layer \<open>i\<close> is the card of row \<open>i\<close> (cleaned), at left
  \<open>(i mod 3) * 800\<close> and top \<open>(i div 3) * 200\<close>. Each card lies inside the canvas, and
  the cell of layer \<open>i\<close> counted row by row is \<open>i\<close> again, so no cell is skipped and no
  two cards share one.
\<close>

theorem grid_compositor_layout:
  assumes "req_file env = Some fn"
    and "load env fn = (t1, Inr data)"
    and "loadBackground env = (t2, Inr bg)"
    and "renderLoop env bg (cleanedData data) 0 [] = (t3, Inr bufs)"
    and "\<not> sharp_throws env (stitched (length data) bufs)"
    and "\<not> readFileSync_throws env [dirname env, ''public'', ''price-sheet.png'']"
    and "\<not> pdf_throws env \<lparr>pageSize = (totalWidth, totalHeight (length data)),
                              drawn = stitched (length data) bufs, drawAt = (0, 0),
                              drawSize = (totalWidth, totalHeight (length data))\<rparr>"
    and "\<not> writeFileSync_throws env [dirname env, ''public'', ''price-sheet.pdf'']"
  shows "upload env =
      (t1 @ ConsoleLog (LogRows ''Cleaned Data:'' (cleanedData data)) # t2 @ t3 @
       [SharpToFile (stitched (length data) bufs) [dirname env, ''public'', ''price-sheet.png''],
        ReadFileSync [dirname env, ''public'', ''price-sheet.png''],
        PdfSave \<lparr>pageSize = (totalWidth, totalHeight (length data)),
                  drawn = stitched (length data) bufs, drawAt = (0, 0),
                  drawSize = (totalWidth, totalHeight (length data))\<rparr>,
        WriteFileSync [dirname env, ''public'', ''price-sheet.pdf'']
          \<lparr>pageSize = (totalWidth, totalHeight (length data)),
            drawn = stitched (length data) bufs, drawAt = (0, 0),
            drawSize = (totalWidth, totalHeight (length data))\<rparr>,
        Respond \<lparr>status = 200,
                  body = Json [(''message'', ''Price sheet generated successfully!''),
                               (''imageUrl'', ''/price-sheet.png''),
                               (''pdfUrl'', ''/price-sheet.pdf'')]\<rparr>], Inr ())
     \<and> stitched (length data) bufs =
         Composite \<lparr>width = 3 * 800, height = nat \<lceil>(of_nat (length data) :: rat) / 3\<rceil> * 200,
                    channels = 4, background = (255, 255, 255, 1)\<rparr> (gridLayers bufs)
     \<and> length (gridLayers bufs) = length data
     \<and> (\<forall>i<length data.
           gridLayers bufs ! i = Layer (bufs ! i) ((i mod 3) * 800) ((i div 3) * 200)
           \<and> snd (renderCard env bg (cleanRow (data ! i))) = Inr (bufs ! i)
           \<and> left (gridLayers bufs ! i) + 800 \<le> 3 * 800
           \<and> top (gridLayers bufs ! i) + 200 \<le> nat \<lceil>(of_nat (length data) :: rat) / 3\<rceil> * 200
           \<and> top (gridLayers bufs ! i) div 200 * 3 + left (gridLayers bufs ! i) div 800 = i)"
proof (intro conjI allI impI)
  note ex = export_run [OF assms(5-8)]
  show "upload env =
      (t1 @ ConsoleLog (LogRows ''Cleaned Data:'' (cleanedData data)) # t2 @ t3 @
       [SharpToFile (stitched (length data) bufs) [dirname env, ''public'', ''price-sheet.png''],
        ReadFileSync [dirname env, ''public'', ''price-sheet.png''],
        PdfSave \<lparr>pageSize = (totalWidth, totalHeight (length data)),
                  drawn = stitched (length data) bufs, drawAt = (0, 0),
                  drawSize = (totalWidth, totalHeight (length data))\<rparr>,
        WriteFileSync [dirname env, ''public'', ''price-sheet.pdf'']
          \<lparr>pageSize = (totalWidth, totalHeight (length data)),
            drawn = stitched (length data) bufs, drawAt = (0, 0),
            drawSize = (totalWidth, totalHeight (length data))\<rparr>,
        Respond \<lparr>status = 200,
                  body = Json [(''message'', ''Price sheet generated successfully!''),
                               (''imageUrl'', ''/price-sheet.png''),
                               (''pdfUrl'', ''/price-sheet.pdf'')]\<rparr>], Inr ())"
    by (rule upload_run [OF assms(1-4) ex])
next
  show "stitched (length data) bufs =
         Composite \<lparr>width = 3 * 800, height = nat \<lceil>(of_nat (length data) :: rat) / 3\<rceil> * 200,
                    channels = 4, background = (255, 255, 255, 1)\<rparr> (gridLayers bufs)"
    by (simp add: stitched_def totalWidth_def columns_def boxWidth_def totalHeight_eq ceiling_thirds)
next
  have len: "length bufs = length data"
    using renderLoop_cards(1) [OF assms(4)] by (simp add: cleanedData_def)
  then show "length (gridLayers bufs) = length data" by (simp add: gridLayers_length)
  fix i assume i: "i < length data"
  with len have ib: "i < length bufs" by simp
  note nth = gridLayers_nth [OF ib]
  show "gridLayers bufs ! i = Layer (bufs ! i) ((i mod 3) * 800) ((i div 3) * 200)"
    by (rule nth)
  from i have "i < length (cleanedData data)" by (simp add: cleanedData_def)
  from renderLoop_cards(2) [OF assms(4) this]
  show "snd (renderCard env bg (cleanRow (data ! i))) = Inr (bufs ! i)"
    by (simp add: cleanedData_nth [OF i])
  show "left (gridLayers bufs ! i) + 800 \<le> 3 * 800"
    by (simp add: nth)
  have "i div 3 + 1 \<le> (length data + 2) div 3" using i by presburger
  then show "top (gridLayers bufs ! i) + 200 \<le> nat \<lceil>(of_nat (length data) :: rat) / 3\<rceil> * 200"
    by (simp add: nth ceiling_thirds)
  show "top (gridLayers bufs ! i) div 200 * 3 + left (gridLayers bufs ! i) div 800 = i"
    by (simp add: nth)
qed

theorem grid_compositor_layout_witness:
  "req_file sample_env = Some ''f1''
   \<and> load sample_env ''f1'' =
       ([ReadFile [''/app'', ''uploads'', ''f1''], ConsoleLog (LogRows ''Parsed Data:'' sample_rows),
         UnlinkSync [''/app'', ''uploads'', ''f1'']], Inr sample_rows)
   \<and> loadBackground sample_env = ([SharpToBuffer sample_background], Inr (Some sample_background))
   \<and> renderLoop sample_env (Some sample_background) (cleanedData sample_rows) 0 [] =
       (fst (renderLoop sample_env (Some sample_background) (cleanedData sample_rows) 0 []),
        Inr [milk_card, eggs_card])
   \<and> \<not> sharp_throws sample_env (stitched (length sample_rows) [milk_card, eggs_card])
   \<and> (1::nat) < length sample_rows
   \<and> snd (upload sample_env) = Inr ()
   \<and> SharpToFile (stitched (length sample_rows) [milk_card, eggs_card])
        [''/app'', ''public'', ''price-sheet.png''] \<in> set (fst (upload sample_env))
   \<and> stitched (length sample_rows) [milk_card, eggs_card] =
       Composite \<lparr>width = 2400, height = 200, channels = 4, background = (255, 255, 255, 1)\<rparr>
         (gridLayers [milk_card, eggs_card])
   \<and> gridLayers [milk_card, eggs_card] ! 1 = Layer eggs_card 800 0
   \<and> snd (renderCard sample_env (Some sample_background) (cleanRow (sample_rows ! 1)))
       = Inr eggs_card"
proof -
  let ?bufs = "[milk_card, eggs_card]"
  have n: "length sample_rows = 2" by (simp add: sample_rows_def)
  have i: "(1::nat) < length sample_rows" by (simp add: n)
  have c: "nat \<lceil>(of_nat 2 :: rat) / 3\<rceil> * 200 = 200"
    using ceiling_thirds [of 2] by simp
  have w: "\<not> sharp_throws sample_env (stitched (length sample_rows) ?bufs)"
    "\<not> readFileSync_throws sample_env [dirname sample_env, ''public'', ''price-sheet.png'']"
    "\<not> pdf_throws sample_env \<lparr>pageSize = (totalWidth, totalHeight (length sample_rows)),
                              drawn = stitched (length sample_rows) ?bufs, drawAt = (0, 0),
                              drawSize = (totalWidth, totalHeight (length sample_rows))\<rparr>"
    "\<not> writeFileSync_throws sample_env [dirname sample_env, ''public'', ''price-sheet.pdf'']"
    by (simp_all add: sample_world)
  note g = grid_compositor_layout [OF sample_world(1) sample_load sample_loadBackground
      sample_render w]
  from g have u: "snd (upload sample_env) = Inr ()" by simp
  from g have m: "SharpToFile (stitched (length sample_rows) ?bufs)
        [''/app'', ''public'', ''price-sheet.png''] \<in> set (fst (upload sample_env))"
    by (simp add: sample_world)
  from g have s: "stitched (length sample_rows) ?bufs =
         Composite \<lparr>width = 3 * 800, height = nat \<lceil>(of_nat (length sample_rows) :: rat) / 3\<rceil> * 200,
                    channels = 4, background = (255, 255, 255, 1)\<rparr> (gridLayers ?bufs)"
    by blast
  from g i have l: "gridLayers ?bufs ! 1 = Layer (?bufs ! 1) ((1 mod 3) * 800) ((1 div 3) * 200)"
    and k: "snd (renderCard sample_env (Some sample_background) (cleanRow (sample_rows ! 1)))
              = Inr (?bufs ! 1)"
    by blast+
  from s c n have s': "stitched (length sample_rows) ?bufs =
       Composite \<lparr>width = 2400, height = 200, channels = 4, background = (255, 255, 255, 1)\<rparr>
         (gridLayers ?bufs)" by simp
  from l have l': "gridLayers ?bufs ! 1 = Layer eggs_card 800 0" by simp
  from k have k': "snd (renderCard sample_env (Some sample_background) (cleanRow (sample_rows ! 1)))
              = Inr eggs_card" by simp
  from sample_world(1) sample_load sample_loadBackground sample_render w(1) i u m s' l' k'
  show ?thesis by blast
qed

text \<open>
  Claim C1 as stated fails for a sheet without rows. The canvas asked for is 2400 by 0;
  sharp refuses a height of 0, so the run ends in the export with sharp's error: no
  grid is written and no answer sent.
\<close>

theorem empty_sheet_counterexample:
  "upload empty_sheet_env =
     ([ReadFile [''/app'', ''uploads'', ''f1''],
       ConsoleLog (LogRows ''Parsed Data:'' []),
       UnlinkSync [''/app'', ''uploads'', ''f1''],
       ConsoleLog (LogRows ''Cleaned Data:'' []),
       SharpToBuffer (FileImage [''/app'', ''images'', ''background.png'']),
       SharpToFile
         (Composite \<lparr>width = 2400, height = 0, channels = 4, background = (255, 255, 255, 1)\<rparr> [])
         [''/app'', ''public'', ''price-sheet.png'']],
      Inl SharpError)"
  by code_simp


section \<open>The card renderer: layers\<close>

text \<open>
  Claim C3. A card that is rendered is the composite the specification words: the
  white opaque canvas of 800 by 200 with, in this order, the background at (0,0) when
  there is one, the resolved product image fitted inside 150 by 150 at (400,20) when
  one was found, and the text layer. When no product image is found (or no background
  exists) the layer is left out and no call is made for it: the card renders whenever
  the fields can be read and sharp renders the remaining composite. The four shapes of
  the layer list are written out. The text layer is an SVG of 800 by 200 that holds,
  in this order, the five text elements with the name, the description, the discount
  info, the price and the old price of the row as their contents. A missing
  \<open>background.png\<close> makes no call and gives no background, without an error. In a
  run of the handler that completes, the grid written holds one such card per row, each
  with the background that exists in the image directory (or none).
\<close>

theorem card_layers:
  "(renderCard env bg item = (t, Inr cardImage) \<longrightarrow>
      (\<exists>f. extract_fields item = Inr f
         \<and> cardImage = spec_card bg (findProductImage (existsSync env) (dirname env)
                                 (productImageSlug (text' f))) f))
   \<and> (extract_fields item = Inr f
        \<and> findProductImage (existsSync env) (dirname env) (productImageSlug (text' f)) = None
        \<and> \<not> sharp_throws env (spec_card bg None f)
      \<longrightarrow> snd (renderCard env bg item) = Inr (spec_card bg None f))
   \<and> (extract_fields item = Inr f
        \<and> findProductImage (existsSync env) (dirname env) (productImageSlug (text' f)) = Some p
        \<and> \<not> sharp_throws env (FileImage p)
        \<and> \<not> sharp_throws env (ResizedInside (FileImage p) 150 150)
        \<and> \<not> sharp_throws env (spec_card bg (Some p) f)
      \<longrightarrow> snd (renderCard env bg item) = Inr (spec_card bg (Some p) f))
   \<and> spec_card None None f =
       Composite \<lparr>width = 800, height = 200, channels = 4, background = (255, 255, 255, 1)\<rparr>
         [Layer (SvgImage (svg_of f)) 0 0]
   \<and> spec_card (Some b) None f =
       Composite \<lparr>width = 800, height = 200, channels = 4, background = (255, 255, 255, 1)\<rparr>
         [Layer b 0 0, Layer (SvgImage (svg_of f)) 0 0]
   \<and> spec_card None (Some p) f =
       Composite \<lparr>width = 800, height = 200, channels = 4, background = (255, 255, 255, 1)\<rparr>
         [Layer (ResizedInside (FileImage p) 150 150) 400 20, Layer (SvgImage (svg_of f)) 0 0]
   \<and> spec_card (Some b) (Some p) f =
       Composite \<lparr>width = 800, height = 200, channels = 4, background = (255, 255, 255, 1)\<rparr>
         [Layer b 0 0, Layer (ResizedInside (FileImage p) 150 150) 400 20,
          Layer (SvgImage (svg_of f)) 0 0]
   \<and> (\<exists>s1 s2 s3 s4 s5 s6.
        svg_of f =
          ''<svg width=\"800\" height=\"200\">'' @ s1
          @ svg_text ''20'' ''50'' ''40'' ''black'' '' font-weight=\"bold\"'' (text' f) @ s2
          @ svg_text ''20'' ''90'' ''20'' ''black'' [] (description f) @ s3
          @ svg_text ''600'' ''50'' ''30'' ''red'' [] (discountInfo f) @ s4
          @ svg_text ''600'' ''100'' ''40'' ''black'' '' font-weight=\"bold\"'' (price f) @ s5
          @ svg_text ''600'' ''140'' ''20'' ''gray'' '' text-decoration=\"line-through\"''
              (oldPrice f) @ s6
          @ ''</svg>'')
   \<and> (\<not> existsSync env [dirname env, ''images'', ''background.png'']
      \<longrightarrow> loadBackground env = ([], Inr None))
   \<and> (existsSync env [dirname env, ''images'', ''background.png'']
        \<and> \<not> sharp_throws env (FileImage [dirname env, ''images'', ''background.png''])
      \<longrightarrow> snd (loadBackground env) = Inr (Some (FileImage [dirname env, ''images'', ''background.png''])))
   \<and> (req_file env = Some fn \<and> upload env = (tr, Inr u) \<longrightarrow>
        (\<exists>data cards.
           snd (load env fn) = Inr data \<and> length cards = length data
           \<and> SharpToFile (stitched (length data) cards) [dirname env, ''public'', ''price-sheet.png'']
               \<in> set tr
           \<and> (\<forall>i<length data.
                 \<exists>fi. extract_fields (cleanRow (data ! i)) = Inr fi
                    \<and> cards ! i =
                        spec_card
                          (if existsSync env [dirname env, ''images'', ''background.png'']
                           then Some (FileImage [dirname env, ''images'', ''background.png''])
                           else None)
                          (findProductImage (existsSync env) (dirname env)
                             (productImageSlug (text' fi)))
                          fi)))"
proof (intro conjI impI)
  assume "renderCard env bg item = (t, Inr cardImage)"
  then show "\<exists>f. extract_fields item = Inr f
         \<and> cardImage = spec_card bg (findProductImage (existsSync env) (dirname env)
                                 (productImageSlug (text' f))) f"
    by (rule renderCard_Inr)
next
  assume "extract_fields item = Inr f
        \<and> findProductImage (existsSync env) (dirname env) (productImageSlug (text' f)) = None
        \<and> \<not> sharp_throws env (spec_card bg None f)"
  then show "snd (renderCard env bg item) = Inr (spec_card bg None f)"
    by (simp add: renderCard_result)
next
  assume "extract_fields item = Inr f
        \<and> findProductImage (existsSync env) (dirname env) (productImageSlug (text' f)) = Some p
        \<and> \<not> sharp_throws env (FileImage p)
        \<and> \<not> sharp_throws env (ResizedInside (FileImage p) 150 150)
        \<and> \<not> sharp_throws env (spec_card bg (Some p) f)"
  then show "snd (renderCard env bg item) = Inr (spec_card bg (Some p) f)"
    by (simp add: renderCard_result)
next
  show "\<exists>s1 s2 s3 s4 s5 s6.
        svg_of f =
          ''<svg width=\"800\" height=\"200\">'' @ s1
          @ svg_text ''20'' ''50'' ''40'' ''black'' '' font-weight=\"bold\"'' (text' f) @ s2
          @ svg_text ''20'' ''90'' ''20'' ''black'' [] (description f) @ s3
          @ svg_text ''600'' ''50'' ''30'' ''red'' [] (discountInfo f) @ s4
          @ svg_text ''600'' ''100'' ''40'' ''black'' '' font-weight=\"bold\"'' (price f) @ s5
          @ svg_text ''600'' ''140'' ''20'' ''gray'' '' text-decoration=\"line-through\"''
              (oldPrice f) @ s6
          @ ''</svg>''"
    by (rule svg_of_elements)
next
  assume "\<not> existsSync env [dirname env, ''images'', ''background.png'']"
  then show "loadBackground env = ([], Inr None)"
    by (simp add: loadBackground_def io_ret_def Let_def)
next
  assume "existsSync env [dirname env, ''images'', ''background.png'']
        \<and> \<not> sharp_throws env (FileImage [dirname env, ''images'', ''background.png''])"
  then show "snd (loadBackground env) = Inr (Some (FileImage [dirname env, ''images'', ''background.png'']))"
    by (simp add: loadBackground_def sharp_toBuffer_def io_ret_def Let_def)
next
  let ?B = "if existsSync env [dirname env, ''images'', ''background.png'']
            then Some (FileImage [dirname env, ''images'', ''background.png'']) else None"
  assume a: "req_file env = Some fn \<and> upload env = (tr, Inr u)"
  then have rf: "req_file env = Some fn" and up: "upload env = (tr, Inr u)" by simp_all
  from rf up obtain data bg' bufs t1 t2 t3 t4 where
    l: "load env fn = (t1, Inr data)" and b: "loadBackground env = (t2, Inr bg')"
    and r: "renderLoop env bg' (cleanedData data) 0 [] = (t3, Inr bufs)"
    and e: "export env (length data) bufs = (t4, Inr u)"
    and tr: "tr = t1 @ ConsoleLog (LogRows ''Cleaned Data:'' (cleanedData data)) # t2 @ t3 @ t4"
    by (rule upload_completed)
  have bg': "bg' = ?B" by (rule loadBackground_Inr [OF b])
  from export_first_call [of env "length data" bufs] obtain rest where
    "fst (export env (length data) bufs) =
       SharpToFile (stitched (length data) bufs) [dirname env, ''public'', ''price-sheet.png''] # rest"
    by blast
  with e have t4: "t4 = SharpToFile (stitched (length data) bufs)
                          [dirname env, ''public'', ''price-sheet.png''] # rest"
    by simp
  have m: "SharpToFile (stitched (length data) bufs) [dirname env, ''public'', ''price-sheet.png'']
               \<in> set tr" unfolding tr t4 by simp
  have len: "length bufs = length data"
    using renderLoop_cards(1) [OF r] by (simp add: cleanedData_def)
  have cards: "\<exists>fi. extract_fields (cleanRow (data ! i)) = Inr fi
                    \<and> bufs ! i = spec_card ?B (findProductImage (existsSync env) (dirname env)
                             (productImageSlug (text' fi))) fi"
    if i: "i < length data" for i
  proof -
    from i have "i < length (cleanedData data)" by (simp add: cleanedData_def)
    from renderLoop_cards(2) [OF r this]
    have "snd (renderCard env bg' (cleanRow (data ! i))) = Inr (bufs ! i)"
      by (simp add: cleanedData_nth [OF i])
    then have "renderCard env bg' (cleanRow (data ! i)) =
        (fst (renderCard env bg' (cleanRow (data ! i))), Inr (bufs ! i))"
      by (simp add: prod_eq_iff)
    from renderCard_Inr [OF this] show ?thesis by (simp only: bg')
  qed
  from l have ld: "snd (load env fn) = Inr data" by simp
  show "\<exists>data cards.
           snd (load env fn) = Inr data \<and> length cards = length data
           \<and> SharpToFile (stitched (length data) cards) [dirname env, ''public'', ''price-sheet.png'']
               \<in> set tr
           \<and> (\<forall>i<length data.
                 \<exists>fi. extract_fields (cleanRow (data ! i)) = Inr fi
                    \<and> cards ! i =
                        spec_card ?B
                          (findProductImage (existsSync env) (dirname env)
                             (productImageSlug (text' fi)))
                          fi)"
  proof (rule exI [where x = data], rule exI [where x = bufs], intro conjI allI impI)
    show "snd (load env fn) = Inr data" by (rule ld)
    show "length bufs = length data" by (rule len)
    show "SharpToFile (stitched (length data) bufs) [dirname env, ''public'', ''price-sheet.png'']
               \<in> set tr" by (rule m)
    fix i assume "i < length data"
    then show "\<exists>fi. extract_fields (cleanRow (data ! i)) = Inr fi
                    \<and> bufs ! i = spec_card ?B (findProductImage (existsSync env) (dirname env)
                             (productImageSlug (text' fi))) fi"
      by (rule cards)
  qed
qed (simp_all add: spec_card_def)


theorem card_layers_witness:
  "renderCard sample_env (Some sample_background) milk_row =
     (fst (renderCard sample_env (Some sample_background) milk_row), Inr milk_card)
   \<and> extract_fields milk_row = Inr milk_fields
   \<and> findProductImage (existsSync sample_env) (dirname sample_env)
        (productImageSlug (text' milk_fields)) = Some [''/app'', ''images'', ''fresh-milk.jpg'']
   \<and> \<not> sharp_throws sample_env (FileImage [''/app'', ''images'', ''fresh-milk.jpg''])
   \<and> snd (renderCard sample_env (Some sample_background) milk_row) =
       Inr (Composite \<lparr>width = 800, height = 200, channels = 4, background = (255, 255, 255, 1)\<rparr>
              [Layer sample_background 0 0,
               Layer (ResizedInside (FileImage [''/app'', ''images'', ''fresh-milk.jpg'']) 150 150) 400 20,
               Layer (SvgImage (svg_of milk_fields)) 0 0])
   \<and> extract_fields eggs_row = Inr eggs_fields
   \<and> findProductImage (existsSync sample_env) (dirname sample_env)
        (productImageSlug (text' eggs_fields)) = None
   \<and> snd (renderCard sample_env (Some sample_background) eggs_row) =
       Inr (Composite \<lparr>width = 800, height = 200, channels = 4, background = (255, 255, 255, 1)\<rparr>
              [Layer sample_background 0 0, Layer (SvgImage (svg_of eggs_fields)) 0 0])
   \<and> existsSync sample_env [dirname sample_env, ''images'', ''background.png'']
   \<and> snd (loadBackground sample_env) =
       Inr (Some (FileImage [dirname sample_env, ''images'', ''background.png'']))
   \<and> \<not> existsSync (sample_env\<lparr>existsSync := (\<lambda>p. False)\<rparr>)
         [dirname (sample_env\<lparr>existsSync := (\<lambda>p. False)\<rparr>), ''images'', ''background.png'']
   \<and> loadBackground (sample_env\<lparr>existsSync := (\<lambda>p. False)\<rparr>) = ([], Inr None)
   \<and> req_file sample_env = Some ''f1''
   \<and> upload sample_env = (fst (upload sample_env), Inr ())
   \<and> (\<exists>data cards.
         snd (load sample_env ''f1'') = Inr data \<and> length cards = length data
         \<and> SharpToFile (stitched (length data) cards)
              [dirname sample_env, ''public'', ''price-sheet.png''] \<in> set (fst (upload sample_env))
         \<and> (\<forall>i<length data.
               \<exists>fi. extract_fields (cleanRow (data ! i)) = Inr fi
                  \<and> cards ! i =
                      spec_card
                        (if existsSync sample_env [dirname sample_env, ''images'', ''background.png'']
                         then Some (FileImage [dirname sample_env, ''images'', ''background.png''])
                         else None)
                        (findProductImage (existsSync sample_env) (dirname sample_env)
                           (productImageSlug (text' fi)))
                        fi))"
proof -
  let ?jpg = "[''/app'', ''images'', ''fresh-milk.jpg'']"
  let ?bg = "Some sample_background"
  let ?dark = "sample_env\<lparr>existsSync := (\<lambda>p. False)\<rparr>"
  have r1: "renderCard sample_env ?bg milk_row =
     (fst (renderCard sample_env ?bg milk_row), Inr milk_card)"
    by (simp add: prod_eq_iff sample_cards)
  have h3: "extract_fields milk_row = Inr milk_fields
        \<and> findProductImage (existsSync sample_env) (dirname sample_env)
             (productImageSlug (text' milk_fields)) = Some ?jpg
        \<and> \<not> sharp_throws sample_env (FileImage ?jpg)
        \<and> \<not> sharp_throws sample_env (ResizedInside (FileImage ?jpg) 150 150)
        \<and> \<not> sharp_throws sample_env (spec_card ?bg (Some ?jpg) milk_fields)"
    by (simp add: sample_fields sample_paths sample_world(3))
  have h2: "extract_fields eggs_row = Inr eggs_fields
        \<and> findProductImage (existsSync sample_env) (dirname sample_env)
             (productImageSlug (text' eggs_fields)) = None
        \<and> \<not> sharp_throws sample_env (spec_card ?bg None eggs_fields)"
    by (simp add: sample_fields sample_paths sample_world(3))
  have h9: "existsSync sample_env [dirname sample_env, ''images'', ''background.png'']
        \<and> \<not> sharp_throws sample_env (FileImage [dirname sample_env, ''images'', ''background.png''])"
    by (simp add: sample_env_def)
  have h8: "\<not> existsSync ?dark [dirname ?dark, ''images'', ''background.png'']"
    by simp
  have h11: "req_file sample_env = Some ''f1'' \<and> upload sample_env = (fst (upload sample_env), Inr ())"
    by (simp add: prod_eq_iff sample_upload sample_world(1))
  note g1 = card_layers [where env = sample_env and bg = ?bg and item = milk_row
      and t = "fst (renderCard sample_env ?bg milk_row)" and cardImage = milk_card
      and f = milk_fields and p = ?jpg and b = sample_background and fn = "''f1''"
      and tr = "fst (upload sample_env)" and u = "()"]
  note g2 = card_layers [where env = sample_env and bg = ?bg and item = eggs_row
      and f = eggs_fields and b = sample_background]
  note g3 = card_layers [where env = ?dark]
  from g1 h3 have c1: "snd (renderCard sample_env ?bg milk_row) = Inr (spec_card ?bg (Some ?jpg) milk_fields)"
    by blast
  from g1 have s1: "spec_card ?bg (Some ?jpg) milk_fields =
       Composite \<lparr>width = 800, height = 200, channels = 4, background = (255, 255, 255, 1)\<rparr>
         [Layer sample_background 0 0, Layer (ResizedInside (FileImage ?jpg) 150 150) 400 20,
          Layer (SvgImage (svg_of milk_fields)) 0 0]"
    by blast
  from g2 h2 have c2: "snd (renderCard sample_env ?bg eggs_row) = Inr (spec_card ?bg None eggs_fields)"
    by blast
  from g2 have s2: "spec_card ?bg None eggs_fields =
       Composite \<lparr>width = 800, height = 200, channels = 4, background = (255, 255, 255, 1)\<rparr>
         [Layer sample_background 0 0, Layer (SvgImage (svg_of eggs_fields)) 0 0]"
    by blast
  from g1 h9 have b1: "snd (loadBackground sample_env) =
       Inr (Some (FileImage [dirname sample_env, ''images'', ''background.png'']))"
    by blast
  from g3 h8 have b0: "loadBackground ?dark = ([], Inr None)"
    by blast
  from g1 h11 have u1: "\<exists>data cards.
         snd (load sample_env ''f1'') = Inr data \<and> length cards = length data
         \<and> SharpToFile (stitched (length data) cards)
              [dirname sample_env, ''public'', ''price-sheet.png''] \<in> set (fst (upload sample_env))
         \<and> (\<forall>i<length data.
               \<exists>fi. extract_fields (cleanRow (data ! i)) = Inr fi
                  \<and> cards ! i =
                      spec_card
                        (if existsSync sample_env [dirname sample_env, ''images'', ''background.png'']
                         then Some (FileImage [dirname sample_env, ''images'', ''background.png''])
                         else None)
                        (findProductImage (existsSync sample_env) (dirname sample_env)
                           (productImageSlug (text' fi)))
                        fi)"
    by blast
  from c1 s1 have c1': "snd (renderCard sample_env ?bg milk_row) =
       Inr (Composite \<lparr>width = 800, height = 200, channels = 4, background = (255, 255, 255, 1)\<rparr>
              [Layer sample_background 0 0, Layer (ResizedInside (FileImage ?jpg) 150 150) 400 20,
               Layer (SvgImage (svg_of milk_fields)) 0 0])" by simp
  from c2 s2 have c2': "snd (renderCard sample_env ?bg eggs_row) =
       Inr (Composite \<lparr>width = 800, height = 200, channels = 4, background = (255, 255, 255, 1)\<rparr>
              [Layer sample_background 0 0, Layer (SvgImage (svg_of eggs_fields)) 0 0])" by simp
  from r1 h3 c1' h2 c2' h9 b1 h8 b0 h11 u1 show ?thesis by (intro conjI) simp_all
qed

end
